theory Spec2Isabelle
  imports Main
begin

section \<open>Python values and the object store\<close>

text \<open>
  The library builds its payload out of mutable dictionaries and lists, copies templates
  with \<^verbatim>\<open>copy.deepcopy\<close> and appends to the copies. Whether an object stored in the
  notifier is changed by a call depends on which object each statement writes to, so
  objects live in a store and are named by their address. An address is an index into
  the store; a new object is put at the end of it.

  A value is \<^verbatim>\<open>None\<close>, a string, or a reference to an object of the store. An
  object is a list of values or a dictionary with string keys, kept in insertion order as
  Python's \<^verbatim>\<open>dict\<close> keeps it.
\<close>

type_synonym addr = nat

datatype pyval = VNone | VStr string | VRef addr

datatype pyobj = OList "pyval list" | ODict "(string \<times> pyval) list"

type_synonym heap = "pyobj list"

text \<open>
  The exceptions that occur. \<open>Timeout\<close>, \<open>TooManyRedirects\<close> and \<open>RequestException\<close> are
  the three classes of \<^verbatim>\<open>requests.exceptions\<close> named in the \<^verbatim>\<open>except\<close> clauses
  of \<^verbatim>\<open>_send_to_webhook\<close>; \<open>RequestException\<close> stands for every exception of that
  class that is neither of the first two. \<open>OtherException\<close> stands for an exception
  outside that class hierarchy.
\<close>

datatype exn =
    Timeout | TooManyRedirects | RequestException | OtherException
  | KeyError | TypeError | AttributeError | ValueError

text \<open>
  A computation on the store returns \<open>None\<close> where the model gives it no behaviour (an
  address that is not in the store, the text of a container, a computation that does not
  end); otherwise it returns the store it leaves together with its value (\<open>Inr\<close>) or the
  exception it raises (\<open>Inl\<close>).
\<close>

type_synonym 'a py = "heap \<Rightarrow> ((exn + 'a) \<times> heap) option"

definition returns :: "'a \<Rightarrow> 'a py" where
  "returns x h = Some (Inr x, h)"

definition seq :: "'a py \<Rightarrow> ('a \<Rightarrow> 'b py) \<Rightarrow> 'b py" where
  "seq m f h =
     (case m h of
        None \<Rightarrow> None
      | Some (Inl e, h') \<Rightarrow> Some (Inl e, h')
      | Some (Inr x, h') \<Rightarrow> f x h')"

subsection \<open>Dictionaries and lists\<close>

text \<open>\<^verbatim>\<open>d[k] = v\<close> on the items of a dictionary: an existing key keeps its place.\<close>

fun dict_update :: "(string \<times> pyval) list \<Rightarrow> string \<Rightarrow> pyval \<Rightarrow> (string \<times> pyval) list" where
  "dict_update [] k v = [(k, v)]"
| "dict_update ((k', v') # kvs) k v =
     (if k' = k then (k, v) # kvs else (k', v') # dict_update kvs k v)"

text \<open>\<^verbatim>\<open>target[k] = v\<close> with a string key \<open>k\<close>.\<close>

definition setitem :: "pyval \<Rightarrow> string \<Rightarrow> pyval \<Rightarrow> unit py" where
  "setitem target k v h =
     (case target of
        VRef a \<Rightarrow>
          if length h \<le> a then None
          else (case h ! a of
                  ODict kvs \<Rightarrow> Some (Inr (), h[a := ODict (dict_update kvs k v)])
                | OList vs \<Rightarrow> Some (Inl TypeError, h))
      | _ \<Rightarrow> Some (Inl TypeError, h))"

text \<open>\<^verbatim>\<open>target[k]\<close> with a string key \<open>k\<close>.\<close>

definition getitem :: "pyval \<Rightarrow> string \<Rightarrow> pyval py" where
  "getitem target k h =
     (case target of
        VRef a \<Rightarrow>
          if length h \<le> a then None
          else (case h ! a of
                  ODict kvs \<Rightarrow>
                    (case map_of kvs k of
                       None \<Rightarrow> Some (Inl KeyError, h)
                     | Some v \<Rightarrow> Some (Inr v, h))
                | OList vs \<Rightarrow> Some (Inl TypeError, h))
      | _ \<Rightarrow> Some (Inl TypeError, h))"

text \<open>\<^verbatim>\<open>target.append(v)\<close>.\<close>

definition py_append :: "pyval \<Rightarrow> pyval \<Rightarrow> unit py" where
  "py_append target v h =
     (case target of
        VRef a \<Rightarrow>
          if length h \<le> a then None
          else (case h ! a of
                  OList vs \<Rightarrow> Some (Inr (), h[a := OList (vs @ [v])])
                | ODict kvs \<Rightarrow> Some (Inl AttributeError, h))
      | _ \<Rightarrow> Some (Inl AttributeError, h))"

text \<open>
  What iterating over the object at an address yields: the elements of a list, the keys
  of a dictionary.
\<close>

definition iter_items :: "heap \<Rightarrow> addr \<Rightarrow> pyval list option" where
  "iter_items h a =
     (if length h \<le> a then None
      else (case h ! a of
              OList vs \<Rightarrow> Some vs
            | ODict kvs \<Rightarrow> Some (map (\<lambda>kv. VStr (fst kv)) kvs)))"

subsection \<open>\<^verbatim>\<open>copy.deepcopy\<close>\<close>

text \<open>
  \<^verbatim>\<open>copy.deepcopy\<close> as the standard library defines it: \<^verbatim>\<open>None\<close> and strings are
  returned as they are; an object already copied in this call is replaced by its copy
  (the memo); a list or a dictionary gets a new object, which is entered in the memo and
  then filled with the copies of the elements or of the values, in order. The function
  copies a sequence of values from left to right, passing the store and the memo on.
\<close>

partial_function (option) deepcopy_vals ::
  "heap \<Rightarrow> (addr \<rightharpoonup> addr) \<Rightarrow> pyval list \<Rightarrow> (heap \<times> (addr \<rightharpoonup> addr) \<times> pyval list) option"
where
  "deepcopy_vals h memo xs =
    (case xs of
       [] \<Rightarrow> Some (h, memo, [])
     | x # rest \<Rightarrow>
        (case x of
           VNone \<Rightarrow>
             Option.bind (deepcopy_vals h memo rest)
               (\<lambda>(h', memo', ys). Some (h', memo', VNone # ys))
         | VStr s \<Rightarrow>
             Option.bind (deepcopy_vals h memo rest)
               (\<lambda>(h', memo', ys). Some (h', memo', VStr s # ys))
         | VRef a \<Rightarrow>
            (case memo a of
               Some b \<Rightarrow>
                 Option.bind (deepcopy_vals h memo rest)
                   (\<lambda>(h', memo', ys). Some (h', memo', VRef b # ys))
             | None \<Rightarrow>
                if length h \<le> a then None
                else
                  (case h ! a of
                     OList vs \<Rightarrow>
                       Option.bind
                         (deepcopy_vals (h @ [OList []]) (memo(a \<mapsto> length h)) vs)
                         (\<lambda>(h1, memo1, ws).
                            Option.bind
                              (deepcopy_vals (h1[length h := OList ws]) memo1 rest)
                              (\<lambda>(h', memo', ys). Some (h', memo', VRef (length h) # ys)))
                   | ODict kvs \<Rightarrow>
                       Option.bind
                         (deepcopy_vals (h @ [ODict []]) (memo(a \<mapsto> length h)) (map snd kvs))
                         (\<lambda>(h1, memo1, ws).
                            Option.bind
                              (deepcopy_vals
                                 (h1[length h := ODict (zip (map fst kvs) ws)]) memo1 rest)
                              (\<lambda>(h', memo', ys). Some (h', memo', VRef (length h) # ys)))))))"

declare deepcopy_vals.simps [code]

definition deepcopy :: "pyval \<Rightarrow> pyval py" where
  "deepcopy x h =
     (case deepcopy_vals h Map.empty [x] of
        Some (h', memo', [y]) \<Rightarrow> Some (Inr y, h')
      | _ \<Rightarrow> None)"

subsection \<open>The JSON value of a payload\<close>

text \<open>
  \<^verbatim>\<open>json.dumps\<close> up to the concrete text: the JSON value that the encoder walks
  through. The encoder keeps the objects it is inside of (its markers) and raises
  \<^verbatim>\<open>ValueError\<close> when it meets one of them again.
\<close>

datatype json = JNull | JStr string | JArr "json list" | JObj "(string \<times> json) list"

partial_function (option) dumps_vals ::
  "heap \<Rightarrow> addr list \<Rightarrow> pyval list \<Rightarrow> (exn + json list) option"
where
  "dumps_vals h markers xs =
    (case xs of
       [] \<Rightarrow> Some (Inr [])
     | x # rest \<Rightarrow>
        (case x of
           VNone \<Rightarrow>
             Option.bind (dumps_vals h markers rest)
               (\<lambda>r. case r of Inl e \<Rightarrow> Some (Inl e) | Inr js \<Rightarrow> Some (Inr (JNull # js)))
         | VStr s \<Rightarrow>
             Option.bind (dumps_vals h markers rest)
               (\<lambda>r. case r of Inl e \<Rightarrow> Some (Inl e) | Inr js \<Rightarrow> Some (Inr (JStr s # js)))
         | VRef a \<Rightarrow>
             if a \<in> set markers then Some (Inl ValueError)
             else if length h \<le> a then None
             else
               (case h ! a of
                  OList vs \<Rightarrow>
                    Option.bind (dumps_vals h (a # markers) vs)
                      (\<lambda>r. case r of
                          Inl e \<Rightarrow> Some (Inl e)
                        | Inr ws \<Rightarrow>
                            Option.bind (dumps_vals h markers rest)
                              (\<lambda>r'. case r' of
                                  Inl e \<Rightarrow> Some (Inl e)
                                | Inr js \<Rightarrow> Some (Inr (JArr ws # js))))
                | ODict kvs \<Rightarrow>
                    Option.bind (dumps_vals h (a # markers) (map snd kvs))
                      (\<lambda>r. case r of
                          Inl e \<Rightarrow> Some (Inl e)
                        | Inr ws \<Rightarrow>
                            Option.bind (dumps_vals h markers rest)
                              (\<lambda>r'. case r' of
                                  Inl e \<Rightarrow> Some (Inl e)
                                | Inr js \<Rightarrow> Some (Inr (JObj (zip (map fst kvs) ws) # js)))))))"

declare dumps_vals.simps [code]

definition json_dumps :: "heap \<Rightarrow> pyval \<Rightarrow> (exn + json) option" where
  "json_dumps h x =
     (case dumps_vals h [] [x] of
        Some (Inl e) \<Rightarrow> Some (Inl e)
      | Some (Inr [j]) \<Rightarrow> Some (Inr j)
      | _ \<Rightarrow> None)"

section \<open>The notifier\<close>

datatype NotificationLevel = NORMAL | INFORMATION | CRITICAL

fun level_value :: "NotificationLevel \<Rightarrow> string" where
  "level_value NORMAL = ''#00C853''"
| "level_value INFORMATION = ''#FFD600''"
| "level_value CRITICAL = ''#d50000''"

text \<open>
  The attributes of a \<^verbatim>\<open>Slackython\<close> object. The supervisor list and the two templates
  are objects of the store; the attributes hold their addresses. No method assigns to an
  attribute after the constructor, so the methods take the record and do not return it.
\<close>

record Slackython =
  webhook_url :: string
  slack_supervisors :: addr
  base_template :: addr
  attachment_template :: addr

text \<open>
  \<^verbatim>\<open>__init__\<close>. \<^verbatim>\<open>list()\<close> makes a new empty list, which a given supervisor list then
  replaces: the attribute holds the caller's own list object, not a copy. The inner list
  of the base template is made before the dictionary that holds it.
\<close>

definition Slackython_init :: "string \<Rightarrow> addr option \<Rightarrow> heap \<Rightarrow> Slackython \<times> heap" where
  "Slackython_init webhook supervisors h =
     (let h1 = h @ [OList []];
          sup = (case supervisors of None \<Rightarrow> length h | Some a \<Rightarrow> a);
          h2 = h1 @ [OList []];
          h3 = h2 @ [ODict [(''attachments'', VRef (length h1))]];
          h4 = h3 @ [ODict [(''text'', VStr ''''), (''color'', VStr '''')]]
      in (\<lparr>webhook_url = webhook, slack_supervisors = sup,
            base_template = length h2, attachment_template = length h3\<rparr>, h4))"

subsection \<open>\<^verbatim>\<open>_generate_message_slack\<close>\<close>

text \<open>
  The mention of a member: \<^verbatim>\<open>str.format\<close> puts the member between \<^verbatim>\<open><@\<close> and
  \<^verbatim>\<open>>\<close>. A string is inserted as it is, \<^verbatim>\<open>None\<close> as its name. The text of a list or
  a dictionary is not modelled.
\<close>

definition format_mention :: "pyval \<Rightarrow> string option" where
  "format_mention member =
     (case member of
        VStr s \<Rightarrow> Some (''<@'' @ s @ ''>'')
      | VNone \<Rightarrow> Some ''<@None>''
      | VRef a \<Rightarrow> None)"

text \<open>The body of the loop over the tagged members.\<close>

definition tag_member :: "Slackython \<Rightarrow> NotificationLevel \<Rightarrow> pyval \<Rightarrow> pyval \<Rightarrow> unit py" where
  "tag_member self level data member =
     seq (deepcopy (VRef (attachment_template self))) (\<lambda>tagged_event.
     seq (\<lambda>h. case format_mention member of
                 None \<Rightarrow> None
               | Some text \<Rightarrow> setitem tagged_event ''text'' (VStr text) h) (\<lambda>_.
     seq (setitem tagged_event ''color'' (VStr (level_value level))) (\<lambda>_.
     seq (getitem data ''attachments'') (\<lambda>attachments.
     py_append attachments tagged_event))))"

text \<open>
  \<^verbatim>\<open>for member in tagged_members\<close>: the iterator reads the object at each step, at the
  next index, and the loop ends when the index reaches its length.
\<close>

partial_function (option) tag_loop ::
  "Slackython \<Rightarrow> NotificationLevel \<Rightarrow> pyval \<Rightarrow> addr \<Rightarrow> nat \<Rightarrow> heap \<Rightarrow> ((exn + unit) \<times> heap) option"
where
  "tag_loop self level data members i h =
     (case iter_items h members of
        None \<Rightarrow> None
      | Some items \<Rightarrow>
          if i < length items then
            (case tag_member self level data (items ! i) h of
               None \<Rightarrow> None
             | Some (Inl e, h') \<Rightarrow> Some (Inl e, h')
             | Some (Inr u, h') \<Rightarrow> tag_loop self level data members (Suc i) h')
          else Some (Inr (), h))"

declare tag_loop.simps [code]

definition generate_message_slack ::
  "Slackython \<Rightarrow> string \<Rightarrow> NotificationLevel \<Rightarrow> string option \<Rightarrow> addr option \<Rightarrow> pyval py"
where
  "generate_message_slack self message level title tagged_members =
     seq (deepcopy (VRef (base_template self))) (\<lambda>data.
     seq (case title of
            None \<Rightarrow> returns ()
          | Some t \<Rightarrow> setitem data ''text'' (VStr t)) (\<lambda>_.
     seq (deepcopy (VRef (attachment_template self))) (\<lambda>event.
     seq (setitem event ''text'' (VStr message)) (\<lambda>_.
     seq (setitem event ''color'' (VStr (level_value level))) (\<lambda>_.
     seq (getitem data ''attachments'') (\<lambda>attachments.
     seq (py_append attachments event) (\<lambda>_.
     seq (case tagged_members of
            None \<Rightarrow> returns ()
          | Some members \<Rightarrow> tag_loop self level data members 0) (\<lambda>_.
     returns data))))))))"

subsection \<open>\<^verbatim>\<open>_send_to_webhook\<close>\<close>

text \<open>
  What one call of \<^verbatim>\<open>requests.post\<close> does: it returns a response with a status code
  or raises an exception. The network is a parameter of the model: \<open>net k\<close> is the
  outcome of the POST made in iteration \<open>k\<close> of the loop.
\<close>

datatype outcome = Response int | Raises exn

record request =
  url :: string
  body :: json
  headers :: "(string \<times> string) list"

datatype log_record = LogInfo string | LogError string | LogErrorExc exn

text \<open>What a call leaves outside the store: the requests sent and the log records.\<close>

record world =
  posts :: "request list"
  logged :: "log_record list"

text \<open>\<^verbatim>\<open>"{}".format(n)\<close> for an integer: its decimal digits.\<close>

fun str_nat :: "nat \<Rightarrow> string" where
  "str_nat n =
     (if n < 10 then [''0123456789'' ! n]
      else str_nat (n div 10) @ [''0123456789'' ! (n mod 10)])"

definition str_int :: "int \<Rightarrow> string" where
  "str_int i = (if i < 0 then CHR ''-'' # str_nat (nat (- i)) else str_nat (nat i))"

definition add_post :: "request \<Rightarrow> world \<Rightarrow> world" where
  "add_post r w = w\<lparr>posts := posts w @ [r]\<rparr>"

definition add_log :: "log_record list \<Rightarrow> world \<Rightarrow> world" where
  "add_log rs w = w\<lparr>logged := logged w @ rs\<rparr>"

text \<open>
  The loop \<^verbatim>\<open>for retry in range(retries)\<close>, with the index \<open>retry\<close> and the number of
  iterations left. The payload is encoded anew in every iteration; an exception of the
  encoder is raised inside the \<^verbatim>\<open>try\<close> and is none of the three classes caught, as is
  every exception of \<^verbatim>\<open>requests.post\<close> outside \<open>RequestException\<close>. The result is
  \<open>Inr ()\<close> when the call returns (it returns \<^verbatim>\<open>None\<close>) and \<open>Inl e\<close> when \<open>e\<close> escapes.
\<close>

fun attempts ::
  "Slackython \<Rightarrow> pyval \<Rightarrow> (nat \<Rightarrow> outcome) \<Rightarrow> heap \<Rightarrow> nat \<Rightarrow> nat \<Rightarrow> world
     \<Rightarrow> ((exn + unit) \<times> world) option"
where
  "attempts self data net h retry 0 w = Some (Inr (), w)"
| "attempts self data net h retry (Suc left) w =
     (case json_dumps h data of
        None \<Rightarrow> None
      | Some (Inl e) \<Rightarrow> Some (Inl e, w)
      | Some (Inr encoded) \<Rightarrow>
          (let w1 = add_post \<lparr>url = webhook_url self, body = encoded,
                              headers = [(''Content-Type'', ''application/json'')]\<rparr> w
           in case net retry of
                Response status_code \<Rightarrow>
                  if status_code = 200
                  then Some (Inr (), add_log [LogInfo ''Success response''] w1)
                  else attempts self data net h (Suc retry) left
                         (add_log [LogInfo (''Response status '' @ str_int status_code
                                     @ ''.'' @ [CHR 0x0A] @ ''Retrying'')] w1)
              | Raises Timeout \<Rightarrow>
                  attempts self data net h (Suc retry) left
                    (add_log [LogError ''Request timeout.''] w1)
              | Raises TooManyRedirects \<Rightarrow>
                  attempts self data net h (Suc retry) left
                    (add_log [LogError ''Request too many redirects.''] w1)
              | Raises RequestException \<Rightarrow>
                  attempts self data net h (Suc retry) left
                    (add_log [LogError ''Requests connection error.'',
                              LogErrorExc RequestException] w1)
              | Raises e \<Rightarrow> Some (Inl e, w1)))"

text \<open>
  The parameter \<^verbatim>\<open>retries=3\<close>: \<open>None\<close> is a call that leaves it out.
  \<^verbatim>\<open>range(retries)\<close> is empty when \<open>retries\<close> is not positive.
\<close>

definition send_to_webhook ::
  "Slackython \<Rightarrow> pyval \<Rightarrow> int option \<Rightarrow> (nat \<Rightarrow> outcome) \<Rightarrow> heap \<Rightarrow> world
     \<Rightarrow> ((exn + unit) \<times> world) option"
where
  "send_to_webhook self data retries net h w =
     attempts self data net h 0 (nat (case retries of None \<Rightarrow> 3 | Some n \<Rightarrow> n)) w"

subsection \<open>The three send operations\<close>

text \<open>
  Each builds the payload, logs the message and hands the payload to the transport,
  leaving \<^verbatim>\<open>retries\<close> out. An exception of the builder ends the call there.
\<close>

definition deliver ::
  "Slackython \<Rightarrow> string \<Rightarrow> (nat \<Rightarrow> outcome) \<Rightarrow> world \<Rightarrow> ((exn + pyval) \<times> heap) option
     \<Rightarrow> ((exn + unit) \<times> heap \<times> world) option"
where
  "deliver self line net w built =
     (case built of
        None \<Rightarrow> None
      | Some (Inl e, h') \<Rightarrow> Some (Inl e, h', w)
      | Some (Inr data, h') \<Rightarrow>
          (case send_to_webhook self data None net h' (add_log [LogInfo line] w) of
             None \<Rightarrow> None
           | Some (r, w') \<Rightarrow> Some (r, h', w')))"

definition send_message ::
  "Slackython \<Rightarrow> string \<Rightarrow> string option \<Rightarrow> addr option \<Rightarrow> (nat \<Rightarrow> outcome) \<Rightarrow> heap \<Rightarrow> world
     \<Rightarrow> ((exn + unit) \<times> heap \<times> world) option"
where
  "send_message self message title tagged_members net h w =
     deliver self (''Sending message '' @ message) net w
       (generate_message_slack self message NORMAL title tagged_members h)"

definition send_information ::
  "Slackython \<Rightarrow> string \<Rightarrow> string option \<Rightarrow> addr option \<Rightarrow> (nat \<Rightarrow> outcome) \<Rightarrow> heap \<Rightarrow> world
     \<Rightarrow> ((exn + unit) \<times> heap \<times> world) option"
where
  "send_information self message title tagged_members net h w =
     deliver self (''Sending information '' @ message) net w
       (generate_message_slack self message INFORMATION title tagged_members h)"

definition send_error ::
  "Slackython \<Rightarrow> string \<Rightarrow> string option \<Rightarrow> addr option \<Rightarrow> (nat \<Rightarrow> outcome) \<Rightarrow> heap \<Rightarrow> world
     \<Rightarrow> ((exn + unit) \<times> heap \<times> world) option"
where
  "send_error self message title tagged_members net h w =
     (let tagged_members_list =
            (case tagged_members of
               None \<Rightarrow> slack_supervisors self
             | Some members \<Rightarrow> members)
      in deliver self (''Sending error '' @ message) net w
           (generate_message_slack self message CRITICAL title (Some tagged_members_list) h))"

section \<open>Vocabulary of the properties\<close>

subsection \<open>The state a notifier is in\<close>

text \<open>
  The state the constructor leaves and every operation keeps: the base template is a
  dictionary whose only item is an empty list of attachments, the attachment template
  has an empty text and an empty colour, and the supervisor list is an object of the
  store.
\<close>

fun is_base_template :: "heap \<Rightarrow> pyobj \<Rightarrow> bool" where
  "is_base_template h (ODict [(k, VRef a)]) \<longleftrightarrow>
     k = ''attachments'' \<and> a < length h \<and> h ! a = OList []"
| "is_base_template h obj \<longleftrightarrow> False"

definition Slackython_inv :: "heap \<Rightarrow> Slackython \<Rightarrow> bool" where
  "Slackython_inv h self \<longleftrightarrow>
     slack_supervisors self < length h \<and>
     base_template self < length h \<and>
     attachment_template self < length h \<and>
     is_base_template h (h ! base_template self) \<and>
     h ! attachment_template self = ODict [(''text'', VStr ''''), (''color'', VStr '''')]"

text \<open>
  The argument \<^verbatim>\<open>tagged_members\<close> stands for the recipients \<open>R\<close>: it is left out and
  there are none, or it is the address of a list of the identifiers \<open>R\<close>.
\<close>

definition recipients_at :: "heap \<Rightarrow> addr option \<Rightarrow> string list \<Rightarrow> bool" where
  "recipients_at h tagged_members R =
     (case tagged_members of
        None \<Rightarrow> R = []
      | Some m \<Rightarrow> m < length h \<and> h ! m = OList (map VStr R))"

text \<open>
  A call that starts in store \<open>h\<close> and ends in store \<open>h'\<close> has changed nothing that the
  notifier holds: every object of \<open>h\<close> is in \<open>h'\<close> at its address with its contents, and
  so are the supervisor list and the two templates.
\<close>

definition unchanged_by :: "Slackython \<Rightarrow> heap \<Rightarrow> heap \<Rightarrow> bool" where
  "unchanged_by self h h' \<longleftrightarrow>
     length h \<le> length h' \<and> take (length h) h' = h \<and>
     h' ! slack_supervisors self = h ! slack_supervisors self \<and>
     h' ! base_template self = h ! base_template self \<and>
     h' ! attachment_template self = h ! attachment_template self"

text \<open>
  The weaker statement that holds of every call, whatever the store: every object of
  \<open>h\<close> is in \<open>h'\<close> at its address with its contents.
\<close>

definition store_kept :: "heap \<Rightarrow> heap \<Rightarrow> bool" where
  "store_kept h h' \<longleftrightarrow> length h \<le> length h' \<and> take (length h) h' = h"

subsection \<open>What a call may write to\<close>

text \<open>
  The objects at the addresses from \<open>n\<close> on are the new ones. A value is fresh when it
  is not a reference to an older object. The store \<open>h\<close> keeps \<open>h0\<close> up to \<open>n\<close> when
  its first \<open>n\<close> objects are those of \<open>h0\<close> and its new objects hold fresh values
  only, so that what is read out of a new object is never an old one.
\<close>

fun fresh :: "nat \<Rightarrow> pyval \<Rightarrow> bool" where
  "fresh n (VRef a) \<longleftrightarrow> n \<le> a"
| "fresh n v \<longleftrightarrow> True"

fun obj_vals :: "pyobj \<Rightarrow> pyval list" where
  "obj_vals (OList vs) = vs"
| "obj_vals (ODict kvs) = map snd kvs"

definition kept :: "nat \<Rightarrow> heap \<Rightarrow> heap \<Rightarrow> bool" where
  "kept n h0 h \<longleftrightarrow>
     n \<le> length h \<and> take n h = take n h0 \<and>
     (\<forall>a<length h. n \<le> a \<longrightarrow> (\<forall>v\<in>set (obj_vals (h ! a)). fresh n v))"

text \<open>
  A computation keeps \<open>I\<close> when it leaves a store with \<open>I\<close> whenever it starts in one,
  on return and on an exception, and returns values with \<open>Q\<close> only.
\<close>

definition valid :: "(heap \<Rightarrow> bool) \<Rightarrow> 'a py \<Rightarrow> ('a \<Rightarrow> bool) \<Rightarrow> bool" where
  "valid I m Q \<longleftrightarrow> (\<forall>h r h'. I h \<longrightarrow> m h = Some (r, h') \<longrightarrow> I h' \<and> (\<forall>x. r = Inr x \<longrightarrow> Q x))"

text \<open>The same for the three recursive functions, as properties of their results.\<close>

definition copied :: "nat \<Rightarrow> heap \<Rightarrow> heap \<Rightarrow> heap \<times> (addr \<rightharpoonup> addr) \<times> pyval list \<Rightarrow> bool" where
  "copied n h0 h y \<longleftrightarrow>
     kept n h0 (fst y) \<and> length h \<le> length (fst y) \<and>
     (\<forall>a b. fst (snd y) a = Some b \<longrightarrow> n \<le> b) \<and>
     (\<forall>v\<in>set (snd (snd y)). fresh n v)"

definition copy_ok ::
  "heap \<Rightarrow> (addr \<rightharpoonup> addr) \<Rightarrow> heap \<times> (addr \<rightharpoonup> addr) \<times> pyval list \<Rightarrow> bool" where
  "copy_ok h memo y \<longleftrightarrow>
     (\<forall>n h0. kept n h0 h \<longrightarrow> (\<forall>a b. memo a = Some b \<longrightarrow> n \<le> b) \<longrightarrow> copied n h0 h y)"

definition loop_ok :: "pyval \<Rightarrow> heap \<Rightarrow> (exn + unit) \<times> heap \<Rightarrow> bool" where
  "loop_ok data h y \<longleftrightarrow> (\<forall>n h0. fresh n data \<longrightarrow> kept n h0 h \<longrightarrow> kept n h0 (snd y))"

subsection \<open>The objects and the JSON value of a payload\<close>

definition block_obj :: "string \<Rightarrow> string \<Rightarrow> pyobj" where
  "block_obj t c = ODict [(''text'', VStr t), (''color'', VStr c)]"

definition mention :: "string \<Rightarrow> string" where
  "mention r = ''<@'' @ r @ ''>''"

definition title_items :: "string option \<Rightarrow> (string \<times> pyval) list" where
  "title_items title = (case title of None \<Rightarrow> [] | Some t \<Rightarrow> [(''text'', VStr t)])"

text \<open>
  The objects that a run of the builder adds to a store of \<open>L\<close> objects: the payload
  dictionary, its list of attachments, and one block for each of the texts.
\<close>

definition payload_objs :: "addr \<Rightarrow> string option \<Rightarrow> string \<Rightarrow> string list \<Rightarrow> pyobj list" where
  "payload_objs L title c texts =
     [ODict ((''attachments'', VRef (Suc L)) # title_items title),
      OList (map VRef [L + 2 ..< L + 2 + length texts])]
     @ map (\<lambda>t. block_obj t c) texts"

definition block_json :: "string \<Rightarrow> string \<Rightarrow> json" where
  "block_json t c = JObj [(''text'', JStr t), (''color'', JStr c)]"

definition title_json :: "string option \<Rightarrow> (string \<times> json) list" where
  "title_json title = (case title of None \<Rightarrow> [] | Some t \<Rightarrow> [(''text'', JStr t)])"

definition payload_json :: "string option \<Rightarrow> string \<Rightarrow> string \<Rightarrow> string list \<Rightarrow> json" where
  "payload_json title message color R =
     JObj ((''attachments'',
            JArr (JObj [(''text'', JStr message), (''color'', JStr color)]
                  # map (\<lambda>r. JObj [(''text'', JStr (''<@'' @ r @ ''>'')), (''color'', JStr color)]) R))
           # (case title of None \<Rightarrow> [] | Some t \<Rightarrow> [(''text'', JStr t)]))"

subsection \<open>The outcomes of an attempt\<close>

text \<open>
  The outcomes after which the loop of \<^verbatim>\<open>_send_to_webhook\<close> goes on to its next
  iteration: a status other than 200 and the three exceptions it catches.
\<close>

fun retried :: "outcome \<Rightarrow> bool" where
  "retried (Response status_code) \<longleftrightarrow> status_code \<noteq> 200"
| "retried (Raises Timeout) \<longleftrightarrow> True"
| "retried (Raises TooManyRedirects) \<longleftrightarrow> True"
| "retried (Raises RequestException) \<longleftrightarrow> True"
| "retried (Raises e) \<longleftrightarrow> False"

text \<open>The number of requests sent: the loop stops after the first outcome not retried.\<close>

fun attempts_made :: "(nat \<Rightarrow> outcome) \<Rightarrow> nat \<Rightarrow> nat \<Rightarrow> nat" where
  "attempts_made net retry 0 = 0"
| "attempts_made net retry (Suc left) =
     (if retried (net retry) then Suc (attempts_made net (Suc retry) left) else 1)"

definition post_request :: "Slackython \<Rightarrow> json \<Rightarrow> request" where
  "post_request self j =
     \<lparr>url = webhook_url self, body = j, headers = [(''Content-Type'', ''application/json'')]\<rparr>"

subsection \<open>A notifier with two supervisors\<close>

text \<open>
  The caller's store holds the list \<^verbatim>\<open>["U1", "U2"]\<close> at address 0 and the notifier is
  constructed with it. \<open>example_built\<close> is the store after the payload for the critical
  message \<^verbatim>\<open>disk full\<close> has been built; the payload is at address 5.
\<close>

definition example_caller_heap :: heap where
  "example_caller_heap = [OList [VStr ''U1'', VStr ''U2'']]"

definition example_notifier :: "Slackython \<times> heap" where
  "example_notifier = Slackython_init ''https://example.test/hook'' (Some 0) example_caller_heap"

definition example_built :: heap where
  "example_built =
     snd example_notifier @
     [ODict [(''attachments'', VRef 6)], OList [VRef 7, VRef 8, VRef 9],
      ODict [(''text'', VStr ''disk full''), (''color'', VStr ''#d50000'')],
      ODict [(''text'', VStr ''<@U1>''), (''color'', VStr ''#d50000'')],
      ODict [(''text'', VStr ''<@U2>''), (''color'', VStr ''#d50000'')]]"

definition example_json :: json where
  "example_json =
     JObj [(''attachments'',
            JArr [JObj [(''text'', JStr ''disk full''), (''color'', JStr ''#d50000'')],
                  JObj [(''text'', JStr ''<@U1>''), (''color'', JStr ''#d50000'')],
                  JObj [(''text'', JStr ''<@U2>''), (''color'', JStr ''#d50000'')]])]"

section \<open>Properties\<close>

subsection \<open>Copying the templates\<close>

lemma deepcopy_vals_Nil: "deepcopy_vals h memo [] = Some (h, memo, [])"
  by (subst deepcopy_vals.simps) simp

lemma deepcopy_vals_VStr:
  "deepcopy_vals h memo (VStr s # rest) =
     Option.bind (deepcopy_vals h memo rest) (\<lambda>(h', memo', ys). Some (h', memo', VStr s # ys))"
  by (subst deepcopy_vals.simps) simp

lemma deepcopy_vals_strings:
  "deepcopy_vals h memo (map VStr ss) = Some (h, memo, map VStr ss)"
  by (induction ss) (simp_all add: deepcopy_vals_Nil deepcopy_vals_VStr)

lemma deepcopy_vals_VRef_dict:
  assumes "memo a = None" "a < length h" "h ! a = ODict kvs"
  shows "deepcopy_vals h memo (VRef a # rest) =
     Option.bind (deepcopy_vals (h @ [ODict []]) (memo(a \<mapsto> length h)) (map snd kvs))
       (\<lambda>(h1, memo1, ws).
          Option.bind (deepcopy_vals (h1[length h := ODict (zip (map fst kvs) ws)]) memo1 rest)
            (\<lambda>(h', memo', ys). Some (h', memo', VRef (length h) # ys)))"
  using assms by (subst deepcopy_vals.simps) simp

lemma deepcopy_vals_VRef_list:
  assumes "memo a = None" "a < length h" "h ! a = OList vs"
  shows "deepcopy_vals h memo (VRef a # rest) =
     Option.bind (deepcopy_vals (h @ [OList []]) (memo(a \<mapsto> length h)) vs)
       (\<lambda>(h1, memo1, ws).
          Option.bind (deepcopy_vals (h1[length h := OList ws]) memo1 rest)
            (\<lambda>(h', memo', ys). Some (h', memo', VRef (length h) # ys)))"
  using assms by (subst deepcopy_vals.simps) simp

lemma deepcopy_strings_dict:
  assumes "a < length h" "h ! a = ODict kvs" "map snd kvs = map VStr ss"
  shows "deepcopy (VRef a) h = Some (Inr (VRef (length h)), h @ [ODict kvs])"
proof -
  have "zip (map fst kvs) (map VStr ss) = kvs"
    using assms(3) by (metis zip_map_fst_snd)
  then show ?thesis
    using assms
    by (simp add: deepcopy_def deepcopy_vals_VRef_dict deepcopy_vals_strings deepcopy_vals_Nil)
qed

lemma deepcopy_base:
  assumes "b < length h" "h ! b = ODict [(''attachments'', VRef a)]"
    and "a < length h" "h ! a = OList []"
  shows "deepcopy (VRef b) h =
    Some (Inr (VRef (length h)),
          h @ [ODict [(''attachments'', VRef (Suc (length h)))], OList []])"
proof -
  have "a \<noteq> b" using assms by auto
  then show ?thesis
    using assms
    by (simp add: deepcopy_def deepcopy_vals_VRef_dict deepcopy_vals_VRef_list
        deepcopy_vals_Nil nth_append list_update_append)
qed

lemma deepcopy_template:
  assumes "a < length h" "h ! a = block_obj s t"
  shows "deepcopy (VRef a) h = Some (Inr (VRef (length h)), h @ [block_obj s t])"
  using assms unfolding block_obj_def
  by (intro deepcopy_strings_dict [where ss = "[s, t]"]) simp_all

subsection \<open>The loop over the tagged members\<close>

lemma setitem_last:
  "setitem (VRef (length h)) k v (h @ [ODict kvs]) = Some (Inr (), h @ [ODict (dict_update kvs k v)])"
  by (simp add: setitem_def)

lemma tag_member_step:
  assumes at: "attachment_template self < length h"
      "h ! attachment_template self = block_obj [] []"
    and D: "map_of dkvs ''attachments'' = Some (VRef (Suc (length h)))"
  shows "tag_member self level (VRef (length h)) (VStr r) (h @ [ODict dkvs, OList as] @ bs) =
     Some (Inr (), h @ [ODict dkvs, OList (as @ [VRef (length h + 2 + length bs)])] @ bs
                     @ [block_obj (mention r) (level_value level)])"
proof -
  let ?H = "h @ [ODict dkvs, OList as] @ bs"
  let ?n = "length ?H"
  let ?c = "level_value level"
  have 1: "deepcopy (VRef (attachment_template self)) ?H =
      Some (Inr (VRef ?n), ?H @ [block_obj [] []])"
    using at by (intro deepcopy_template) (simp_all add: nth_append)
  have 2: "(case format_mention (VStr r) of None \<Rightarrow> None
            | Some text \<Rightarrow> setitem (VRef ?n) ''text'' (VStr text) (?H @ [block_obj [] []]))
      = Some (Inr (), ?H @ [block_obj (mention r) []])"
    unfolding block_obj_def format_mention_def mention_def
    by (simp only: pyval.case option.case setitem_last) simp
  have 3: "setitem (VRef ?n) ''color'' (VStr ?c) (?H @ [block_obj (mention r) []])
      = Some (Inr (), ?H @ [block_obj (mention r) ?c])"
    unfolding block_obj_def by (simp only: setitem_last) simp
  have 4: "getitem (VRef (length h)) ''attachments'' (?H @ [block_obj (mention r) ?c])
      = Some (Inr (VRef (Suc (length h))), ?H @ [block_obj (mention r) ?c])"
    by (simp add: getitem_def D)
  have 5: "py_append (VRef (Suc (length h))) (VRef ?n) (?H @ [block_obj (mention r) ?c])
      = Some (Inr (), h @ [ODict dkvs, OList (as @ [VRef (length h + 2 + length bs)])] @ bs
                     @ [block_obj (mention r) ?c])"
    by (simp add: py_append_def nth_append list_update_append)
  show ?thesis
    unfolding tag_member_def
    by (simp only: seq_def 1 2 3 4 5 option.case prod.case sum.case)
qed

lemma upt_shift: "[a ..< a + Suc d] = a # [Suc a ..< Suc a + d]"
  by (simp add: upt_conv_Cons)

lemma iter_items_old:
  "m < length h \<Longrightarrow> h ! m = OList vs \<Longrightarrow> iter_items (h @ ext) m = Some vs"
  by (simp add: iter_items_def nth_append)

lemma tag_loop_run:
  assumes at: "attachment_template self < length h"
      "h ! attachment_template self = block_obj [] []"
    and D: "map_of dkvs ''attachments'' = Some (VRef (Suc (length h)))"
    and m: "m < length h" "h ! m = OList (map VStr R)"
    and i: "i \<le> length R"
  shows "tag_loop self level (VRef (length h)) m i (h @ [ODict dkvs, OList as] @ bs) =
     Some (Inr (),
       h @ [ODict dkvs,
            OList (as @ map VRef [length h + 2 + length bs ..< length h + 2 + length bs + (length R - i)])]
         @ bs @ map (\<lambda>r. block_obj (mention r) (level_value level)) (drop i R))"
  using i
proof (induction "length R - i" arbitrary: i as bs)
  case 0
  then have "i = length R" by simp
  then show ?case
    by (subst tag_loop.simps) (simp add: iter_items_old [OF m])
next
  case (Suc k)
  then have lt: "i < length R" and k: "k = length R - Suc i" and le: "Suc i \<le> length R"
    by simp_all
  let ?b = "block_obj (mention (R ! i)) (level_value level)"
  have step: "tag_member self level (VRef (length h)) (map VStr R ! i) (h @ [ODict dkvs, OList as] @ bs) =
     Some (Inr (), h @ [ODict dkvs, OList (as @ [VRef (length h + 2 + length bs)])] @ (bs @ [?b]))"
    using tag_member_step [OF at D, of level "R ! i" as bs] lt by simp
  have rest: "tag_loop self level (VRef (length h)) m (Suc i)
       (h @ [ODict dkvs, OList (as @ [VRef (length h + 2 + length bs)])] @ (bs @ [?b])) =
     Some (Inr (),
       h @ [ODict dkvs,
            OList ((as @ [VRef (length h + 2 + length bs)])
               @ map VRef [length h + 2 + length (bs @ [?b]) ..<
                           length h + 2 + length (bs @ [?b]) + (length R - Suc i)])]
         @ (bs @ [?b]) @ map (\<lambda>r. block_obj (mention r) (level_value level)) (drop (Suc i) R))"
    by (rule Suc.hyps(1) [OF k le])
  have d: "length R - i = Suc (length R - Suc i)" using lt by simp
  have e: "length h + 2 + length (bs @ [?b]) = Suc (length h + 2 + length bs)" by simp
  have dr: "drop i R = R ! i # drop (Suc i) R"
    using lt by (simp add: Cons_nth_drop_Suc)
  show ?case
    apply (subst tag_loop.simps)
    apply (simp only: iter_items_old [OF m] option.case length_map lt if_True step prod.case sum.case rest e)
    apply (simp only: d upt_shift dr)
    apply simp
    done
qed

subsection \<open>The payload that is built\<close>

lemma Slackython_inv_base:
  assumes "Slackython_inv h self"
  obtains a where "h ! base_template self = ODict [(''attachments'', VRef a)]"
    "a < length h" "h ! a = OList []"
  using assms unfolding Slackython_inv_def
  by (auto elim: is_base_template.elims)

lemma Slackython_inv_template:
  assumes "Slackython_inv h self"
  shows "attachment_template self < length h" "h ! attachment_template self = block_obj [] []"
    "base_template self < length h" "slack_supervisors self < length h"
  using assms unfolding Slackython_inv_def block_obj_def by simp_all

lemma payload_objs_Cons:
  "payload_objs L title c (t # ts) =
     [ODict ((''attachments'', VRef (Suc L)) # title_items title),
      OList ([VRef (L + 2)] @ map VRef [L + 2 + length [block_obj t c] ..<
                                    L + 2 + length [block_obj t c] + (length ts - 0)])]
     @ [block_obj t c] @ map (\<lambda>t. block_obj t c) (drop 0 ts)"
proof -
  have "[L + 2 ..< L + 2 + length (t # ts)] = (L + 2) # [Suc (L + 2) ..< Suc (L + 2) + length ts]"
    using upt_shift [of "L + 2" "length ts"] by simp
  then show ?thesis
    by (simp add: payload_objs_def)
qed

lemma generate_message_slack_built:
  assumes inv: "Slackython_inv h self" and R: "recipients_at h tagged_members R"
  shows "generate_message_slack self message level title tagged_members h =
     Some (Inr (VRef (length h)),
           h @ payload_objs (length h) title (level_value level) (message # map mention R))"
proof -
  let ?L = "length h"
  let ?c = "level_value level"
  let ?E = "ODict [(''attachments'', VRef (Suc ?L))]"
  let ?D = "ODict ((''attachments'', VRef (Suc ?L)) # title_items title)"
  obtain a where a: "h ! base_template self = ODict [(''attachments'', VRef a)]"
    "a < length h" "h ! a = OList []"
    using inv by (rule Slackython_inv_base)
  note t = Slackython_inv_template [OF inv]
  have 1: "deepcopy (VRef (base_template self)) h = Some (Inr (VRef ?L), h @ [?E, OList []])"
    using t(3) a by (rule deepcopy_base)
  have 2: "(case title of None \<Rightarrow> returns () | Some t \<Rightarrow> setitem (VRef ?L) ''text'' (VStr t))
             (h @ [?E, OList []]) = Some (Inr (), h @ [?D, OList []])"
    by (cases title) (simp_all add: returns_def setitem_def title_items_def nth_append)
  have 3: "deepcopy (VRef (attachment_template self)) (h @ [?D, OList []]) =
      Some (Inr (VRef (?L + 2)), (h @ [?D, OList []]) @ [block_obj [] []])"
    using deepcopy_template [of "attachment_template self" "h @ [?D, OList []]" "[]" "[]"] t(1,2)
    by (simp add: nth_append)
  have 4: "setitem (VRef (?L + 2)) ''text'' (VStr message) ((h @ [?D, OList []]) @ [block_obj [] []])
      = Some (Inr (), (h @ [?D, OList []]) @ [block_obj message []])"
    using setitem_last [of "h @ [?D, OList []]" "''text''" "VStr message"
        "[(''text'', VStr ''''), (''color'', VStr '''')]"]
    by (simp add: block_obj_def)
  have 5: "setitem (VRef (?L + 2)) ''color'' (VStr ?c) ((h @ [?D, OList []]) @ [block_obj message []])
      = Some (Inr (), (h @ [?D, OList []]) @ [block_obj message ?c])"
    using setitem_last [of "h @ [?D, OList []]" "''color''" "VStr ?c"
        "[(''text'', VStr message), (''color'', VStr '''')]"]
    by (simp add: block_obj_def)
  have 6: "getitem (VRef ?L) ''attachments'' ((h @ [?D, OList []]) @ [block_obj message ?c])
      = Some (Inr (VRef (Suc ?L)), (h @ [?D, OList []]) @ [block_obj message ?c])"
    by (simp add: getitem_def)
  have 7: "py_append (VRef (Suc ?L)) (VRef (?L + 2)) ((h @ [?D, OList []]) @ [block_obj message ?c])
      = Some (Inr (), h @ [?D, OList [VRef (?L + 2)]] @ [block_obj message ?c])"
    by (simp add: py_append_def nth_append list_update_append)
  have 8: "(case tagged_members of None \<Rightarrow> returns ()
            | Some members \<Rightarrow> tag_loop self level (VRef ?L) members 0)
             (h @ [?D, OList [VRef (?L + 2)]] @ [block_obj message ?c])
      = Some (Inr (), h @ payload_objs ?L title ?c (message # map mention R))"
  proof (cases tagged_members)
    case None
    then show ?thesis using R by (simp add: recipients_at_def returns_def payload_objs_def)
  next
    case (Some m)
    then have m: "m < length h" "h ! m = OList (map VStr R)"
      using R by (simp_all add: recipients_at_def)
    have D: "map_of ((''attachments'', VRef (Suc ?L)) # title_items title) ''attachments''
        = Some (VRef (Suc ?L))" by simp
    have "tag_loop self level (VRef ?L) m 0 (h @ [?D, OList [VRef (?L + 2)]] @ [block_obj message ?c])
      = Some (Inr (), h @ payload_objs ?L title ?c (message # map mention R))"
      unfolding payload_objs_Cons
      using tag_loop_run [OF t(1,2) D m, of 0 level "[VRef (?L + 2)]" "[block_obj message ?c]"]
      by (simp add: o_def)
    with Some show ?thesis by simp
  qed
  show ?thesis
    unfolding generate_message_slack_def
    by (simp only: seq_def 1 2 3 4 5 6 7 8 option.case prod.case sum.case returns_def)
qed

subsection \<open>The JSON value of the payload\<close>

lemma dumps_vals_Nil: "dumps_vals h ms [] = Some (Inr [])"
  by (subst dumps_vals.simps) simp

lemma dumps_vals_VStr:
  "dumps_vals h ms (VStr s # rest) =
     Option.bind (dumps_vals h ms rest)
       (\<lambda>r. case r of Inl e \<Rightarrow> Some (Inl e) | Inr js \<Rightarrow> Some (Inr (JStr s # js)))"
  by (subst dumps_vals.simps) simp

lemma dumps_vals_strings: "dumps_vals h ms (map VStr ss) = Some (Inr (map JStr ss))"
  by (induction ss) (simp_all add: dumps_vals_Nil dumps_vals_VStr)

lemma dumps_vals_VRef_dict:
  assumes "a \<notin> set ms" "a < length h" "h ! a = ODict kvs"
  shows "dumps_vals h ms (VRef a # rest) =
     Option.bind (dumps_vals h (a # ms) (map snd kvs))
       (\<lambda>r. case r of
           Inl e \<Rightarrow> Some (Inl e)
         | Inr ws \<Rightarrow>
             Option.bind (dumps_vals h ms rest)
               (\<lambda>r'. case r' of
                   Inl e \<Rightarrow> Some (Inl e)
                 | Inr js \<Rightarrow> Some (Inr (JObj (zip (map fst kvs) ws) # js))))"
  using assms by (subst dumps_vals.simps) simp

lemma dumps_vals_VRef_list:
  assumes "a \<notin> set ms" "a < length h" "h ! a = OList vs"
  shows "dumps_vals h ms (VRef a # rest) =
     Option.bind (dumps_vals h (a # ms) vs)
       (\<lambda>r. case r of
           Inl e \<Rightarrow> Some (Inl e)
         | Inr ws \<Rightarrow>
             Option.bind (dumps_vals h ms rest)
               (\<lambda>r'. case r' of
                   Inl e \<Rightarrow> Some (Inl e)
                 | Inr js \<Rightarrow> Some (Inr (JArr ws # js))))"
  using assms by (subst dumps_vals.simps) simp

lemma dumps_vals_blocks:
  assumes ms: "\<forall>a\<in>set ms. a < s"
    and H: "\<forall>j<length texts. s + j < length H \<and> H ! (s + j) = block_obj (texts ! j) c"
  shows "dumps_vals H ms (map VRef [s ..< s + length texts])
         = Some (Inr (map (\<lambda>t. block_json t c) texts))"
  using assms
proof (induction texts arbitrary: s)
  case Nil
  then show ?case by (simp add: dumps_vals_Nil)
next
  case (Cons t ts)
  have s: "s \<notin> set ms" "s < length H" "H ! s = ODict [(''text'', VStr t), (''color'', VStr c)]"
    using Cons.prems by (auto simp: block_obj_def)
  have "\<forall>a\<in>set ms. a < Suc s" using Cons.prems(1) by auto
  moreover have "\<forall>j<length ts. Suc s + j < length H \<and> H ! (Suc s + j) = block_obj (ts ! j) c"
    using Cons.prems(2) by fastforce
  ultimately have IH: "dumps_vals H ms (map VRef [Suc s ..< Suc s + length ts])
         = Some (Inr (map (\<lambda>t. block_json t c) ts))"
    by (rule Cons.IH)
  have inner: "dumps_vals H (s # ms) (map VStr [t, c]) = Some (Inr (map JStr [t, c]))"
    by (rule dumps_vals_strings)
  have u: "[s ..< s + length (t # ts)] = s # [Suc s ..< Suc s + length ts]"
    using upt_shift [of s "length ts"] by simp
  show ?case
    unfolding u using inner IH
    by (simp add: dumps_vals_VRef_dict [OF s] block_json_def)
qed

lemma json_dumps_payload:
  "json_dumps (h @ payload_objs (length h) title c texts) (VRef (length h)) =
     Some (Inr (JObj ((''attachments'', JArr (map (\<lambda>t. block_json t c) texts)) # title_json title)))"
proof -
  let ?L = "length h"
  let ?H = "h @ payload_objs ?L title c texts"
  have len: "length ?H = ?L + 2 + length texts"
    by (simp add: payload_objs_def)
  have top: "?L \<notin> set []" "?L < length ?H"
    "?H ! ?L = ODict ((''attachments'', VRef (Suc ?L)) # title_items title)"
    by (simp_all add: payload_objs_def)
  have lst: "Suc ?L \<notin> set [?L]" "Suc ?L < length ?H"
    "?H ! Suc ?L = OList (map VRef [?L + 2 ..< ?L + 2 + length texts])"
    by (simp_all add: payload_objs_def nth_append)
  have blocks: "dumps_vals ?H [Suc ?L, ?L] (map VRef [?L + 2 ..< ?L + 2 + length texts])
         = Some (Inr (map (\<lambda>t. block_json t c) texts))"
  proof (rule dumps_vals_blocks)
    show "\<forall>a\<in>set [Suc ?L, ?L]. a < ?L + 2" by simp
    show "\<forall>j<length texts. ?L + 2 + j < length ?H \<and> ?H ! (?L + 2 + j) = block_obj (texts ! j) c"
      by (simp add: payload_objs_def nth_append)
  qed
  have tl: "dumps_vals ?H [?L] (map snd (title_items title)) = Some (Inr (map snd (title_json title)))"
    by (cases title) (simp_all add: title_items_def title_json_def dumps_vals_Nil dumps_vals_VStr)
  have z: "zip (map fst (title_items title)) (map snd (title_json title)) = title_json title"
    by (cases title) (simp_all add: title_items_def title_json_def)
  have inner: "dumps_vals ?H [?L] (VRef (Suc ?L) # map snd (title_items title)) =
     Some (Inr (JArr (map (\<lambda>t. block_json t c) texts) # map snd (title_json title)))"
    by (simp only: dumps_vals_VRef_list [OF lst] blocks tl Option.bind.simps sum.case)
  have "dumps_vals ?H [] [VRef ?L] =
     Some (Inr [JObj (zip (map fst ((''attachments'', VRef (Suc ?L)) # title_items title))
                  (JArr (map (\<lambda>t. block_json t c) texts) # map snd (title_json title)))])"
    by (simp only: dumps_vals_VRef_dict [OF top] list.map snd_conv inner dumps_vals_Nil
        Option.bind.simps sum.case)
  then have "dumps_vals ?H [] [VRef ?L] =
     Some (Inr [JObj ((''attachments'', JArr (map (\<lambda>t. block_json t c) texts)) # title_json title)])"
    by (simp add: z)
  then show ?thesis by (simp add: json_dumps_def)
qed

lemma generate_message_slack_payload:
  assumes inv: "Slackython_inv h self" and R: "recipients_at h tagged_members R"
  shows "\<exists>new. generate_message_slack self message level title tagged_members h =
             Some (Inr (VRef (length h)), h @ new)
         \<and> json_dumps (h @ new) (VRef (length h)) =
             Some (Inr (payload_json title message (level_value level) R))"
proof -
  have "json_dumps (h @ payload_objs (length h) title (level_value level) (message # map mention R))
          (VRef (length h)) = Some (Inr (payload_json title message (level_value level) R))"
    unfolding json_dumps_payload
    by (simp add: payload_json_def block_json_def title_json_def mention_def o_def)
  then show ?thesis
    using generate_message_slack_built [OF inv R] by blast
qed

lemma payload_json_blocks:
  "\<exists>blocks rest. payload_json title message c R = JObj ((''attachments'', JArr blocks) # rest)
     \<and> (\<forall>b\<in>set blocks. \<exists>t. b = JObj [(''text'', JStr t), (''color'', JStr c)])"
  by (auto simp: payload_json_def)

subsection \<open>The retry loop\<close>

lemma posts_add_post [simp]: "posts (add_post r w) = posts w @ [r]"
  by (simp add: add_post_def)

lemma posts_add_log [simp]: "posts (add_log ls w) = posts w"
  by (simp add: add_log_def)

lemma logged_add_post [simp]: "logged (add_post r w) = logged w"
  by (simp add: add_post_def)

lemma logged_add_log [simp]: "logged (add_log ls w) = logged w @ ls"
  by (simp add: add_log_def)

lemma attempts_run:
  assumes enc: "json_dumps h data = Some (Inr j)"
  shows "\<exists>r w'. attempts self data net h retry left w = Some (r, w')
           \<and> posts w' = posts w @ replicate (attempts_made net retry left) (post_request self j)
           \<and> (\<exists>ls. logged w' = logged w @ ls)"
proof (induction left arbitrary: retry w)
  case 0
  show ?case by simp
next
  case (Suc left)
  let ?w1 = "add_post (post_request self j) w"
  show ?case
  proof (cases "retried (net retry)")
    case False
    then show ?thesis
      by (cases "net retry" rule: retried.cases)
         (simp_all add: enc post_request_def [symmetric])
  next
    case True
    then obtain ls where
      step: "attempts self data net h retry (Suc left) w =
               attempts self data net h (Suc retry) left (add_log ls ?w1)"
      by (cases "net retry" rule: retried.cases)
         (simp_all add: enc post_request_def [symmetric])
    obtain r w' ls' where
      "attempts self data net h (Suc retry) left (add_log ls ?w1) = Some (r, w')"
      "posts w' = posts (add_log ls ?w1)
          @ replicate (attempts_made net (Suc retry) left) (post_request self j)"
      "logged w' = logged (add_log ls ?w1) @ ls'"
      using Suc.IH [of "Suc retry" "add_log ls ?w1"] by blast
    with True step show ?thesis
      by (simp add: replicate_app_Cons_same)
  qed
qed

lemma attempts_normal:
  assumes enc: "json_dumps h data = Some (Inr j)"
    and ok: "\<And>i. i < left \<Longrightarrow> (\<forall>m<i. retried (net (retry + m)))
               \<Longrightarrow> retried (net (retry + i)) \<or> net (retry + i) = Response 200"
  shows "\<exists>w'. attempts self data net h retry left w = Some (Inr (), w')"
  using ok
proof (induction left arbitrary: retry w)
  case 0
  show ?case by simp
next
  case (Suc left)
  have first: "retried (net retry) \<or> net retry = Response 200"
    using Suc.prems [of 0] by simp
  show ?case
  proof (cases "net retry = Response 200")
    case True
    then show ?thesis by (simp add: enc Let_def)
  next
    case False
    with first have r: "retried (net retry)" by simp
    have "\<exists>w'. attempts self data net h (Suc retry) left w1 = Some (Inr (), w')" for w1
    proof (rule Suc.IH)
      fix i
      assume i: "i < left" and before: "\<forall>m<i. retried (net (Suc retry + m))"
      have "\<forall>m<Suc i. retried (net (retry + m))"
      proof (intro allI impI)
        fix m assume "m < Suc i"
        then show "retried (net (retry + m))"
          using r before by (cases m) simp_all
      qed
      then show "retried (net (Suc retry + i)) \<or> net (Suc retry + i) = Response 200"
        using Suc.prems [of "Suc i"] i by simp
    qed
    then show ?thesis
      using r by (cases "net retry" rule: retried.cases) (simp_all add: enc Let_def)
  qed
qed

lemma attempts_made_le: "attempts_made net retry left \<le> left"
  by (induction left arbitrary: retry) simp_all

lemma attempts_made_all:
  "(\<And>i. i < left \<Longrightarrow> retried (net (retry + i))) \<Longrightarrow> attempts_made net retry left = left"
proof (induction left arbitrary: retry)
  case 0
  show ?case by simp
next
  case (Suc left)
  have "retried (net retry)" using Suc.prems [of 0] by simp
  moreover have "attempts_made net (Suc retry) left = left"
    using Suc.prems [of "Suc i" for i] by (intro Suc.IH) simp
  ultimately show ?case by simp
qed

lemma attempts_made_ge:
  "i < left \<Longrightarrow> (\<And>k. k < i \<Longrightarrow> retried (net (retry + k))) \<Longrightarrow> Suc i \<le> attempts_made net retry left"
proof (induction left arbitrary: retry i)
  case 0
  then show ?case by simp
next
  case (Suc left)
  show ?case
  proof (cases i)
    case 0
    then show ?thesis by simp
  next
    case (Suc i')
    have "retried (net retry)" using Suc.prems(2) [of 0] \<open>i = Suc i'\<close> by simp
    moreover have "Suc i' \<le> attempts_made net (Suc retry) left"
      using Suc.prems \<open>i = Suc i'\<close> by (intro Suc.IH) (simp_all, metis Suc_less_eq add_Suc_right)
    ultimately show ?thesis using \<open>i = Suc i'\<close> by simp
  qed
qed

lemma attempts_made_stop:
  "i < left \<Longrightarrow> (\<And>k. k < i \<Longrightarrow> retried (net (retry + k))) \<Longrightarrow> \<not> retried (net (retry + i))
     \<Longrightarrow> attempts_made net retry left = Suc i"
proof (induction left arbitrary: retry i)
  case 0
  then show ?case by simp
next
  case (Suc left)
  show ?case
  proof (cases i)
    case 0
    then show ?thesis using Suc.prems by simp
  next
    case (Suc i')
    have "retried (net retry)" using Suc.prems(2) [of 0] \<open>i = Suc i'\<close> by simp
    moreover have "attempts_made net (Suc retry) left = Suc i'"
      using Suc.prems \<open>i = Suc i'\<close> by (intro Suc.IH) (simp_all, metis Suc_less_eq add_Suc_right)
    ultimately show ?thesis using \<open>i = Suc i'\<close> by simp
  qed
qed

lemma send_to_webhook_run:
  assumes enc: "json_dumps h data = Some (Inr j)"
  shows "\<exists>r w'. send_to_webhook self data retries net h w = Some (r, w')
           \<and> posts w' = posts w @ replicate (attempts_made net 0 (nat (case retries of None \<Rightarrow> 3 | Some n \<Rightarrow> n))) (post_request self j)"
  using attempts_run [OF enc, of self net 0 "nat (case retries of None \<Rightarrow> 3 | Some n \<Rightarrow> n)" w]
  unfolding send_to_webhook_def by blast

subsection \<open>The send operations\<close>

lemma deliver_run:
  assumes enc: "json_dumps h' data = Some (Inr j)"
  shows "\<exists>r w' k. deliver self line net w (Some (Inr data, h')) = Some (r, h', w')
           \<and> posts w' = posts w @ replicate k (post_request self j) \<and> 1 \<le> k \<and> k \<le> 3"
proof -
  obtain r w' where
    s: "send_to_webhook self data None net h' (add_log [LogInfo line] w) = Some (r, w')"
    and p: "posts w' = posts (add_log [LogInfo line] w)
              @ replicate (attempts_made net 0 (nat (case None of None \<Rightarrow> 3 | Some n \<Rightarrow> n))) (post_request self j)"
    using send_to_webhook_run [OF enc] by blast
  have "Suc 0 \<le> attempts_made net 0 3" by (rule attempts_made_ge) simp_all
  moreover have "attempts_made net 0 3 \<le> 3" by (rule attempts_made_le)
  ultimately show ?thesis
    using s p by (auto simp: deliver_def)
qed

lemma deliver_payload:
  assumes inv: "Slackython_inv h self" and R: "recipients_at h tagged_members R"
  shows "\<exists>r new w' k.
      deliver self line net w (generate_message_slack self message level title tagged_members h)
        = Some (r, h @ new, w')
      \<and> posts w' = posts w @ replicate k
           (post_request self (payload_json title message (level_value level) R))
      \<and> 1 \<le> k \<and> k \<le> 3"
proof -
  obtain new where
    b: "generate_message_slack self message level title tagged_members h =
             Some (Inr (VRef (length h)), h @ new)"
    and e: "json_dumps (h @ new) (VRef (length h)) =
             Some (Inr (payload_json title message (level_value level) R))"
    using generate_message_slack_payload [OF inv R] by blast
  show ?thesis
    unfolding b using deliver_run [OF e] by blast
qed

lemma send_message_run:
  assumes inv: "Slackython_inv h self" and R: "recipients_at h tagged_members R"
  shows "\<exists>r new w' k.
      send_message self message title tagged_members net h w = Some (r, h @ new, w')
      \<and> posts w' = posts w @ replicate k
           (post_request self (payload_json title message ''#00C853'' R))
      \<and> 1 \<le> k \<and> k \<le> 3"
  using deliver_payload [OF inv R, where level = NORMAL]
  unfolding send_message_def by simp

lemma send_information_run:
  assumes inv: "Slackython_inv h self" and R: "recipients_at h tagged_members R"
  shows "\<exists>r new w' k.
      send_information self message title tagged_members net h w = Some (r, h @ new, w')
      \<and> posts w' = posts w @ replicate k
           (post_request self (payload_json title message ''#FFD600'' R))
      \<and> 1 \<le> k \<and> k \<le> 3"
  using deliver_payload [OF inv R, where level = INFORMATION]
  unfolding send_information_def by simp

lemma send_error_recipients_at:
  assumes "Slackython_inv h self" and "recipients_at h tagged_members R"
    and "h ! slack_supervisors self = OList (map VStr supervisors)"
  shows "recipients_at h
           (Some (case tagged_members of None \<Rightarrow> slack_supervisors self | Some m \<Rightarrow> m))
           (case tagged_members of None \<Rightarrow> supervisors | Some m \<Rightarrow> R)"
  using assms Slackython_inv_template(4) [OF assms(1)]
  by (cases tagged_members) (simp_all add: recipients_at_def)

lemma send_error_run:
  assumes inv: "Slackython_inv h self"
    and R: "recipients_at h
              (Some (case tagged_members of None \<Rightarrow> slack_supervisors self | Some m \<Rightarrow> m)) R"
  shows "\<exists>r new w' k.
      send_error self message title tagged_members net h w = Some (r, h @ new, w')
      \<and> posts w' = posts w @ replicate k
           (post_request self (payload_json title message ''#d50000'' R))
      \<and> 1 \<le> k \<and> k \<le> 3"
  using deliver_payload [OF inv R, where level = CRITICAL]
  unfolding send_error_def by (simp add: Let_def)

subsection \<open>The state of the notifier\<close>

lemma Slackython_init_inv:
  assumes "Slackython_init webhook supervisors h0 = (self, h)"
    and "case supervisors of None \<Rightarrow> True | Some a \<Rightarrow> a < length h0"
  shows "Slackython_inv h self"
  using assms
  by (auto simp: Slackython_init_def Slackython_inv_def Let_def nth_append split: option.splits)

lemma Slackython_inv_extend:
  "Slackython_inv h self \<Longrightarrow> Slackython_inv (h @ new) self"
  by (auto simp: Slackython_inv_def nth_append elim!: is_base_template.elims)

lemma unchanged_by_append:
  "Slackython_inv h self \<Longrightarrow> unchanged_by self h (h @ new)"
  by (simp add: unchanged_by_def Slackython_inv_def nth_append)

subsection \<open>What every call leaves of the store\<close>

lemma validI:
  "(\<And>h r h'. I h \<Longrightarrow> m h = Some (r, h') \<Longrightarrow> I h' \<and> (\<forall>x. r = Inr x \<longrightarrow> Q x)) \<Longrightarrow> valid I m Q"
  unfolding valid_def by blast

lemma validD:
  "valid I m Q \<Longrightarrow> I h \<Longrightarrow> m h = Some (r, h') \<Longrightarrow> I h' \<and> (\<forall>x. r = Inr x \<longrightarrow> Q x)"
  unfolding valid_def by blast

lemma valid_seq:
  assumes m: "valid I m Q" and f: "\<And>x. Q x \<Longrightarrow> valid I (f x) R"
  shows "valid I (seq m f) R"
proof (rule validI)
  fix h r h'
  assume I: "I h" and run: "seq m f h = Some (r, h')"
  from run obtain r1 h1 where m1: "m h = Some (r1, h1)"
    by (cases "m h") (auto simp: seq_def)
  note s1 = validD [OF m I m1]
  show "I h' \<and> (\<forall>x. r = Inr x \<longrightarrow> R x)"
  proof (cases r1)
    case (Inl e)
    with run m1 s1 show ?thesis by (auto simp: seq_def)
  next
    case (Inr x)
    with run m1 have "f x h1 = Some (r, h')" by (simp add: seq_def)
    moreover have "Q x" using s1 Inr by simp
    ultimately show ?thesis using validD [OF f] s1 by blast
  qed
qed

lemma valid_returns: "Q x \<Longrightarrow> valid I (returns x) Q"
  by (simp add: valid_def returns_def)

lemma kept_update:
  assumes "kept n h0 h" and "n \<le> a" and "a < length h"
    and "\<forall>v\<in>set (obj_vals obj). fresh n v"
  shows "kept n h0 (h[a := obj])"
proof -
  have "take n (h[a := obj]) = take n h"
    using assms(2) by simp
  moreover have "\<forall>v\<in>set (obj_vals (h[a := obj] ! b)). fresh n v"
    if "b < length h" "n \<le> b" for b
  proof (cases "b = a")
    case True
    then show ?thesis using assms(3,4) by simp
  next
    case False
    then show ?thesis using that assms(1) unfolding kept_def by simp
  qed
  ultimately show ?thesis
    using assms(1) unfolding kept_def by simp
qed

lemma kept_alloc:
  assumes "kept n h0 h" and "\<forall>v\<in>set (obj_vals obj). fresh n v"
  shows "kept n h0 (h @ [obj])"
proof -
  have "take n (h @ [obj]) = take n h"
    using assms(1) unfolding kept_def by simp
  moreover have "\<forall>v\<in>set (obj_vals ((h @ [obj]) ! b)). fresh n v"
    if "b < Suc (length h)" "n \<le> b" for b
  proof (cases "b = length h")
    case True
    then show ?thesis using assms(2) by simp
  next
    case False
    with that have "b < length h" by simp
    then show ?thesis using that assms(1) unfolding kept_def by (simp add: nth_append)
  qed
  ultimately show ?thesis
    using assms(1) unfolding kept_def by simp
qed

lemma kept_nth:
  "kept n h0 h \<Longrightarrow> n \<le> a \<Longrightarrow> a < length h \<Longrightarrow> v \<in> set (obj_vals (h ! a)) \<Longrightarrow> fresh n v"
  unfolding kept_def by blast

lemma dict_update_vals:
  "(k', x) \<in> set (dict_update kvs k v) \<Longrightarrow> x = v \<or> (k', x) \<in> set kvs"
  by (induction kvs) (auto split: if_splits)

lemma valid_setitem:
  assumes "fresh n t" and "fresh n v"
  shows "valid (kept n h0) (setitem t k v) (\<lambda>_. True)"
proof (rule validI)
  fix h r h'
  assume I: "kept n h0 h" and run: "setitem t k v h = Some (r, h')"
  have "kept n h0 h'"
  proof (cases t)
    case (VRef a)
    with run have a: "a < length h" by (auto simp: setitem_def split: if_splits)
    show ?thesis
    proof (cases "h ! a")
      case (OList vs)
      with VRef a run I show ?thesis by (auto simp: setitem_def)
    next
      case (ODict kvs)
      have "\<forall>x\<in>set (obj_vals (ODict (dict_update kvs k v))). fresh n x"
      proof
        fix x assume "x \<in> set (obj_vals (ODict (dict_update kvs k v)))"
        then obtain k' where "(k', x) \<in> set (dict_update kvs k v)" by auto
        then have "x = v \<or> (k', x) \<in> set kvs" by (rule dict_update_vals)
        then have "x = v \<or> x \<in> set (obj_vals (h ! a))"
          using ODict by force
        then show "fresh n x"
          using kept_nth [OF I _ a] assms VRef by auto
      qed
      then have "kept n h0 (h[a := ODict (dict_update kvs k v)])"
        using I assms(1) VRef a by (intro kept_update) simp_all
      with VRef a run ODict show ?thesis by (auto simp: setitem_def)
    qed
  qed (use run I in \<open>auto simp: setitem_def\<close>)
  then show "kept n h0 h' \<and> (\<forall>x. r = Inr x \<longrightarrow> True)" by simp
qed

lemma valid_getitem:
  assumes "fresh n t"
  shows "valid (kept n h0) (getitem t k) (fresh n)"
proof (rule validI)
  fix h r h'
  assume I: "kept n h0 h" and run: "getitem t k h = Some (r, h')"
  show "kept n h0 h' \<and> (\<forall>x. r = Inr x \<longrightarrow> fresh n x)"
  proof (cases t)
    case (VRef a)
    with run have a: "a < length h" by (auto simp: getitem_def split: if_splits)
    show ?thesis
    proof (cases "h ! a")
      case (OList vs)
      with VRef a run I show ?thesis by (auto simp: getitem_def)
    next
      case (ODict kvs)
      have "fresh n x" if "map_of kvs k = Some x" for x
      proof -
        have "(k, x) \<in> set kvs" using that by (rule map_of_SomeD)
        then have "x \<in> set (obj_vals (h ! a))"
          using ODict by force
        then show ?thesis
          using kept_nth [OF I _ a] assms VRef by simp
      qed
      with VRef a run ODict I show ?thesis
        by (auto simp: getitem_def split: option.splits)
    qed
  qed (use run I in \<open>auto simp: getitem_def\<close>)
qed

lemma valid_py_append:
  assumes "fresh n t" and "fresh n v"
  shows "valid (kept n h0) (py_append t v) (\<lambda>_. True)"
proof (rule validI)
  fix h r h'
  assume I: "kept n h0 h" and run: "py_append t v h = Some (r, h')"
  have "kept n h0 h'"
  proof (cases t)
    case (VRef a)
    with run have a: "a < length h" by (auto simp: py_append_def split: if_splits)
    show ?thesis
    proof (cases "h ! a")
      case (ODict kvs)
      with VRef a run I show ?thesis by (auto simp: py_append_def)
    next
      case (OList vs)
      have "\<forall>x\<in>set (obj_vals (OList (vs @ [v]))). fresh n x"
        using kept_nth [OF I _ a] OList assms VRef by auto
      then have "kept n h0 (h[a := OList (vs @ [v])])"
        using I assms(1) VRef a by (intro kept_update) simp_all
      with VRef a run OList show ?thesis by (auto simp: py_append_def)
    qed
  qed (use run I in \<open>auto simp: py_append_def\<close>)
  then show "kept n h0 h' \<and> (\<forall>x. r = Inr x \<longrightarrow> True)" by simp
qed

lemma copied_Cons:
  assumes "copied n h0 h (h', memo', ys)" and "fresh n v"
  shows "copied n h0 h (h', memo', v # ys)"
  using assms by (simp add: copied_def)

lemma deepcopy_vals_kept:
  assumes "deepcopy_vals h memo xs = Some y"
  shows "copy_ok h memo y"
proof (rule deepcopy_vals.raw_induct [where P = "\<lambda>h memo xs y. copy_ok h memo y", OF _ assms],
    goal_cases)
  case (1 dv h memo xs y)
  note IH = "1"(1) and body = "1"(2)
  show ?case
    unfolding copy_ok_def
  proof (intro allI impI)
    fix n h0
    assume K: "kept n h0 h" and M: "\<forall>a b. memo a = Some b \<longrightarrow> n \<le> b"
    have same: "copied n h0 h y"
      if "Option.bind (dv h memo rest) (\<lambda>(h', memo', ys). Some (h', memo', v # ys)) = Some y"
        and "fresh n v" for rest v
    proof -
      from that(1) obtain h' memo' ys where
        r: "dv h memo rest = Some (h', memo', ys)" and y: "y = (h', memo', v # ys)"
        by (auto simp: bind_eq_Some_conv)
      have "copied n h0 h (h', memo', ys)"
        using IH [OF r] K M unfolding copy_ok_def by blast
      then show ?thesis unfolding y using that(2) by (rule copied_Cons)
    qed
    have new: "copied n h0 h y"
      if a: "a < length h" and obj: "\<forall>ws. (\<forall>v\<in>set ws. fresh n v) \<longrightarrow>
               (\<forall>v\<in>set (obj_vals (mk ws)). fresh n v)"
        and run: "Option.bind (dv (h @ [mk []]) (memo(a \<mapsto> length h)) vs)
             (\<lambda>(h1, memo1, ws).
                Option.bind (dv (h1[length h := mk ws]) memo1 rest)
                  (\<lambda>(h', memo', ys). Some (h', memo', VRef (length h) # ys))) = Some y"
      for a mk vs rest
    proof -
      from run obtain h1 memo1 ws h' memo' ys where
        r1: "dv (h @ [mk []]) (memo(a \<mapsto> length h)) vs = Some (h1, memo1, ws)"
        and r2: "dv (h1[length h := mk ws]) memo1 rest = Some (h', memo', ys)"
        and y: "y = (h', memo', VRef (length h) # ys)"
        by (auto simp: bind_eq_Some_conv)
      have n: "n \<le> length h" using K by (simp add: kept_def)
      have "\<forall>v\<in>set (obj_vals (mk [])). fresh n v"
        using obj [rule_format, of "[]"] by simp
      then have K1: "kept n h0 (h @ [mk []])"
        using K by (intro kept_alloc)
      have M1: "\<forall>x b. (memo(a \<mapsto> length h)) x = Some b \<longrightarrow> n \<le> b"
        using M n by auto
      have c1: "copied n h0 (h @ [mk []]) (h1, memo1, ws)"
        using IH [OF r1] K1 M1 unfolding copy_ok_def by blast
      then have l1: "length h < length h1" and ws: "\<forall>v\<in>set ws. fresh n v"
        and m1: "\<forall>x b. memo1 x = Some b \<longrightarrow> n \<le> b" and k1: "kept n h0 h1"
        by (simp_all add: copied_def)
      have K2: "kept n h0 (h1[length h := mk ws])"
        using k1 n l1 obj ws by (intro kept_update) simp_all
      have c2: "copied n h0 (h1[length h := mk ws]) (h', memo', ys)"
        using IH [OF r2] K2 m1 unfolding copy_ok_def by blast
      then have "copied n h0 h (h', memo', ys)"
        using l1 by (simp add: copied_def)
      then show ?thesis unfolding y using n by (intro copied_Cons) simp_all
    qed
    show "copied n h0 h y"
    proof (cases xs)
      case Nil
      with body K M show ?thesis by (auto simp: copied_def)
    next
      case (Cons x rest)
      show ?thesis
      proof (cases x)
        case VNone
        with Cons body show ?thesis by (intro same [of rest VNone]) simp_all
      next
        case (VStr s)
        with Cons body show ?thesis by (intro same [of rest "VStr s"]) simp_all
      next
        case (VRef a)
        show ?thesis
        proof (cases "memo a")
          case (Some b)
          with M have "fresh n (VRef b)" by simp
          with Some VRef Cons body show ?thesis
            by (intro same [of rest "VRef b"]) simp_all
        next
          case None
          with VRef Cons body have a: "a < length h"
            by (auto split: if_splits)
          show ?thesis
          proof (cases "h ! a")
            case (OList vs)
            with None a VRef Cons body show ?thesis
              by (intro new [of a OList vs rest]) simp_all
          next
            case (ODict kvs)
            have "\<forall>ws. (\<forall>v\<in>set ws. fresh n v) \<longrightarrow>
               (\<forall>v\<in>set (obj_vals (ODict (zip (map fst kvs) ws))). fresh n v)"
              by (auto dest: set_zip_rightD)
            with ODict None a VRef Cons body show ?thesis
              by (intro new [of a "\<lambda>ws. ODict (zip (map fst kvs) ws)" "map snd kvs" rest])
                simp_all
          qed
        qed
      qed
    qed
  qed
qed

lemma valid_deepcopy: "valid (kept n h0) (deepcopy x) (fresh n)"
proof (rule validI)
  fix h r h'
  assume I: "kept n h0 h" and run: "deepcopy x h = Some (r, h')"
  from run obtain memo' y where
    c: "deepcopy_vals h Map.empty [x] = Some (h', memo', [y])" and r: "r = Inr y"
    by (auto simp: deepcopy_def split: option.splits list.splits)
  have "copied n h0 h (h', memo', [y])"
    using deepcopy_vals_kept [OF c] I by (simp add: copy_ok_def)
  then show "kept n h0 h' \<and> (\<forall>x. r = Inr x \<longrightarrow> fresh n x)"
    using r by (simp add: copied_def)
qed

lemma valid_tag_member:
  assumes "fresh n data"
  shows "valid (kept n h0) (tag_member self level data member) (\<lambda>_. True)"
  unfolding tag_member_def
proof (intro valid_seq)
  show "valid (kept n h0) (deepcopy (VRef (attachment_template self))) (fresh n)"
    by (rule valid_deepcopy)
next
  fix tagged_event
  assume t: "fresh n tagged_event"
  show "valid (kept n h0)
     (\<lambda>h. case format_mention member of None \<Rightarrow> None
          | Some text \<Rightarrow> setitem tagged_event ''text'' (VStr text) h) (\<lambda>_. True)"
  proof (cases "format_mention member")
    case None
    then show ?thesis by (simp add: valid_def)
  next
    case (Some s)
    then show ?thesis using valid_setitem [OF t, of "VStr s" h0 "''text''"] by simp
  qed
  show "valid (kept n h0) (setitem tagged_event ''color'' (VStr (level_value level))) (\<lambda>_. True)"
    using t by (intro valid_setitem) simp_all
  show "valid (kept n h0) (getitem data ''attachments'') (fresh n)"
    using assms by (rule valid_getitem)
  show "valid (kept n h0) (py_append attachments tagged_event) (\<lambda>_. True)"
    if "fresh n attachments" for attachments
    using that t by (rule valid_py_append)
qed

lemma tag_loop_kept:
  assumes "tag_loop self level data members i h = Some y"
  shows "loop_ok data h y"
proof (rule tag_loop.raw_induct
    [where P = "\<lambda>self level data members i h y. loop_ok data h y", OF _ assms], goal_cases)
  case (1 loop self level data members i h y)
  note IH = "1"(1) and body = "1"(2)
  show ?case
    unfolding loop_ok_def
  proof (intro allI impI)
    fix n h0
    assume d: "fresh n data" and K: "kept n h0 h"
    from body obtain items where items: "iter_items h members = Some items"
      by (cases "iter_items h members") simp_all
    show "kept n h0 (snd y)"
    proof (cases "i < length items")
      case False
      with body items K show ?thesis by auto
    next
      case True
      with body items obtain r1 h1 where
        step: "tag_member self level data (items ! i) h = Some (r1, h1)"
        by (cases "tag_member self level data (items ! i) h") auto
      have K1: "kept n h0 h1"
        using validD [OF valid_tag_member [OF d] K step] by simp
      show ?thesis
      proof (cases r1)
        case (Inl e)
        with body items True step K1 show ?thesis by auto
      next
        case (Inr u)
        with body items True step have "loop self level data members (Suc i) h1 = Some y"
          by simp
        then show ?thesis
          using IH d K1 unfolding loop_ok_def by blast
      qed
    qed
  qed
qed

lemma valid_tag_loop:
  assumes "fresh n data"
  shows "valid (kept n h0) (tag_loop self level data members i) (\<lambda>_. True)"
proof (rule validI)
  fix h r h'
  assume "kept n h0 h" and "tag_loop self level data members i h = Some (r, h')"
  then show "kept n h0 h' \<and> (\<forall>x. r = Inr x \<longrightarrow> True)"
    using tag_loop_kept [of self level data members i h "(r, h')"] assms
    by (simp add: loop_ok_def)
qed

lemma valid_generate_message_slack:
  "valid (kept n h0) (generate_message_slack self message level title tagged_members) (fresh n)"
  unfolding generate_message_slack_def
proof (intro valid_seq)
  show "valid (kept n h0) (deepcopy (VRef (base_template self))) (fresh n)"
    by (rule valid_deepcopy)
next
  fix data
  assume d: "fresh n data"
  show "valid (kept n h0)
     (case title of None \<Rightarrow> returns () | Some t \<Rightarrow> setitem data ''text'' (VStr t)) (\<lambda>_. True)"
    using d by (cases title) (simp_all add: valid_returns valid_setitem)
  show "valid (kept n h0) (deepcopy (VRef (attachment_template self))) (fresh n)"
    by (rule valid_deepcopy)
  show "valid (kept n h0) (getitem data ''attachments'') (fresh n)"
    using d by (rule valid_getitem)
  show "valid (kept n h0)
     (case tagged_members of None \<Rightarrow> returns ()
      | Some members \<Rightarrow> tag_loop self level data members 0) (\<lambda>_. True)"
    using d by (cases tagged_members) (simp_all add: valid_returns valid_tag_loop)
  show "valid (kept n h0) (returns data) (fresh n)"
    using d by (rule valid_returns)
  fix event
  assume e: "fresh n event"
  show "valid (kept n h0) (setitem event ''text'' (VStr message)) (\<lambda>_. True)"
    using e by (intro valid_setitem) simp_all
  show "valid (kept n h0) (setitem event ''color'' (VStr (level_value level))) (\<lambda>_. True)"
    using e by (intro valid_setitem) simp_all
  show "valid (kept n h0) (py_append attachments event) (\<lambda>_. True)"
    if "fresh n attachments" for attachments
    using that e by (rule valid_py_append)
qed

lemma kept_refl: "kept (length h) h h"
  by (simp add: kept_def)

lemma generate_message_slack_frame:
  assumes "generate_message_slack self message level title tagged_members h = Some (r, h')"
  shows "length h \<le> length h' \<and> take (length h) h' = h"
  using validD [OF valid_generate_message_slack kept_refl assms]
  by (simp add: kept_def)

lemma deliver_frame:
  assumes "deliver self line net w built = Some (r, h', w')"
  shows "\<exists>r0. built = Some (r0, h')"
  using assms unfolding deliver_def
  by (auto split: option.splits sum.splits prod.splits)

lemma generate_message_slack_store_kept:
  "generate_message_slack self message level title tagged_members h = Some (r, h')
     \<Longrightarrow> store_kept h h'"
  unfolding store_kept_def by (rule generate_message_slack_frame)

lemma deliver_store_kept:
  assumes "deliver self line net w
             (generate_message_slack self message level title tagged_members h) = Some (r, h', w')"
  shows "store_kept h h'"
  using deliver_frame [OF assms] generate_message_slack_store_kept by blast

subsection \<open>The example notifier\<close>

lemma example_notifier_eq:
  "example_notifier =
     (\<lparr>webhook_url = ''https://example.test/hook'', slack_supervisors = 0,
        base_template = 3, attachment_template = 4\<rparr>,
      [OList [VStr ''U1'', VStr ''U2''], OList [], OList [],
       ODict [(''attachments'', VRef 2)],
       ODict [(''text'', VStr ''''), (''color'', VStr '''')]])"
  by (simp add: example_notifier_def example_caller_heap_def Slackython_init_def)

lemma example_notifier_inv: "Slackython_inv (snd example_notifier) (fst example_notifier)"
  by (simp add: example_notifier_eq Slackython_inv_def)

lemma example_built_run:
  "generate_message_slack (fst example_notifier) ''disk full'' CRITICAL None (Some 0)
     (snd example_notifier) = Some (Inr (VRef 5), example_built)"
  by code_simp

lemma example_built_json: "json_dumps example_built (VRef 5) = Some (Inr example_json)"
  by (simp add: json_dumps_def example_built_def example_notifier_eq example_json_def
      dumps_vals_VRef_dict dumps_vals_VRef_list dumps_vals_VStr dumps_vals_Nil)

section \<open>The claims\<close>

text \<open>
  Claim C1. On a notifier in the state the constructor leaves, whose supervisor list holds
  the identifiers \<open>supervisors\<close>: \<^verbatim>\<open>send_error\<close> without a recipient list returns
  or raises after at least one POST, and every POST it sends carries the payload with the
  message block followed by one mention block for each supervisor, in order.
  With the recipient list \<open>R\<close> given, the mention blocks are those of \<open>R\<close> and of no
  one else. For the supervisors \<^verbatim>\<open>U1\<close> and \<^verbatim>\<open>U2\<close> and the message \<^verbatim>\<open>disk full\<close>
  the payload is the one of the specification's example.
\<close>

theorem send_error_recipients:
  assumes "Slackython_inv h self"
    and "h ! slack_supervisors self = OList (map VStr supervisors)"
    and "m < length h" and "h ! m = OList (map VStr R)"
  shows
   "(\<exists>r new w' k.
       send_error self message title None net h w = Some (r, h @ new, w') \<and> 1 \<le> k
     \<and> posts w' = posts w @ replicate k
         \<lparr>url = webhook_url self,
          body = JObj ((''attachments'',
                   JArr (JObj [(''text'', JStr message), (''color'', JStr ''#d50000'')]
                         # map (\<lambda>s. JObj [(''text'', JStr (''<@'' @ s @ ''>'')),
                                          (''color'', JStr ''#d50000'')]) supervisors))
                  # (case title of None \<Rightarrow> [] | Some t \<Rightarrow> [(''text'', JStr t)])),
          headers = [(''Content-Type'', ''application/json'')]\<rparr>)
  \<and> (\<exists>r new w' k.
       send_error self message title (Some m) net h w = Some (r, h @ new, w') \<and> 1 \<le> k
     \<and> posts w' = posts w @ replicate k
         \<lparr>url = webhook_url self,
          body = JObj ((''attachments'',
                   JArr (JObj [(''text'', JStr message), (''color'', JStr ''#d50000'')]
                         # map (\<lambda>s. JObj [(''text'', JStr (''<@'' @ s @ ''>'')),
                                          (''color'', JStr ''#d50000'')]) R))
                  # (case title of None \<Rightarrow> [] | Some t \<Rightarrow> [(''text'', JStr t)])),
          headers = [(''Content-Type'', ''application/json'')]\<rparr>)
  \<and> (supervisors = [''U1'', ''U2''] \<longrightarrow>
      (\<exists>r new w' k.
         send_error self ''disk full'' None None net h w = Some (r, h @ new, w') \<and> 1 \<le> k
       \<and> posts w' = posts w @ replicate k
         \<lparr>url = webhook_url self,
          body = JObj [(''attachments'',
                   JArr [JObj [(''text'', JStr ''disk full''), (''color'', JStr ''#d50000'')],
                         JObj [(''text'', JStr ''<@U1>''), (''color'', JStr ''#d50000'')],
                         JObj [(''text'', JStr ''<@U2>''), (''color'', JStr ''#d50000'')]])],
          headers = [(''Content-Type'', ''application/json'')]\<rparr>))"
proof -
  note inv = Slackython_inv_template [OF assms(1)]
  have S: "recipients_at h
      (Some (case None of None \<Rightarrow> slack_supervisors self | Some m \<Rightarrow> m)) supervisors"
    using inv(4) assms(2) by (simp add: recipients_at_def)
  have E: "recipients_at h
      (Some (case Some m of None \<Rightarrow> slack_supervisors self | Some m \<Rightarrow> m)) R"
    using assms(3,4) by (simp add: recipients_at_def)
  have a: "\<exists>r new w' k.
       send_error self msg title None net h w = Some (r, h @ new, w') \<and> 1 \<le> k
     \<and> posts w' = posts w @ replicate k
         (post_request self (payload_json title msg ''#d50000'' supervisors))" for msg title
    using send_error_run [OF assms(1) S, of msg title net w] by blast
  have b: "\<exists>r new w' k.
       send_error self message title (Some m) net h w = Some (r, h @ new, w') \<and> 1 \<le> k
     \<and> posts w' = posts w @ replicate k
         (post_request self (payload_json title message ''#d50000'' R))"
    using send_error_run [OF assms(1) E, of message title net w] by blast
  show ?thesis
    using a [of message title] a [of "''disk full''" None] b
    unfolding post_request_def payload_json_def by auto
qed

theorem send_error_recipients_witness:
  "Slackython_inv (snd example_notifier) (fst example_notifier)
   \<and> snd example_notifier ! slack_supervisors (fst example_notifier)
       = OList (map VStr [''U1'', ''U2''])
   \<and> 1 < length (snd example_notifier)
   \<and> snd example_notifier ! 1 = OList (map VStr [])
   \<and> (\<exists>r new w' k.
         send_error (fst example_notifier) ''disk full'' None None (\<lambda>i. Response 200)
           (snd example_notifier) \<lparr>posts = [], logged = []\<rparr>
           = Some (r, snd example_notifier @ new, w') \<and> 1 \<le> k
       \<and> posts w' = replicate k
         \<lparr>url = ''https://example.test/hook'',
          body = JObj [(''attachments'',
                   JArr [JObj [(''text'', JStr ''disk full''), (''color'', JStr ''#d50000'')],
                         JObj [(''text'', JStr ''<@U1>''), (''color'', JStr ''#d50000'')],
                         JObj [(''text'', JStr ''<@U2>''), (''color'', JStr ''#d50000'')]])],
          headers = [(''Content-Type'', ''application/json'')]\<rparr>)
   \<and> (\<exists>r new w' k.
         send_error (fst example_notifier) ''disk full'' None (Some 1) (\<lambda>i. Response 200)
           (snd example_notifier) \<lparr>posts = [], logged = []\<rparr>
           = Some (r, snd example_notifier @ new, w') \<and> 1 \<le> k
       \<and> posts w' = replicate k
         \<lparr>url = ''https://example.test/hook'',
          body = JObj [(''attachments'',
                   JArr [JObj [(''text'', JStr ''disk full''), (''color'', JStr ''#d50000'')]])],
          headers = [(''Content-Type'', ''application/json'')]\<rparr>)"
proof -
  have s: "snd example_notifier ! slack_supervisors (fst example_notifier)
       = OList (map VStr [''U1'', ''U2''])"
    by (simp add: example_notifier_eq)
  have m: "1 < length (snd example_notifier)" "snd example_notifier ! 1 = OList (map VStr [])"
    by (simp_all add: example_notifier_eq)
  have u: "webhook_url (fst example_notifier) = ''https://example.test/hook''"
    by (simp add: example_notifier_eq)
  show ?thesis
    using example_notifier_inv s m
      send_error_recipients [OF example_notifier_inv s m,
        of "''disk full''" None "\<lambda>i. Response 200" "\<lparr>posts = [], logged = []\<rparr>"]
    by (simp add: u)
qed

text \<open>
  Claim C2. For every message and every severity, the builder called without a title and
  without recipients returns a payload whose JSON value has the single item
  \<^verbatim>\<open>attachments\<close>, a list of exactly one block, with the message as text and with the
  colour \<^verbatim>\<open>#00C853\<close> for Normal, \<^verbatim>\<open>#FFD600\<close> for Information and \<^verbatim>\<open>#d50000\<close> for
  Critical.
\<close>

theorem generate_message_slack_single_block:
  assumes "Slackython_inv h self"
  shows "\<exists>new.
      generate_message_slack self message level None None h =
        Some (Inr (VRef (length h)), h @ new)
    \<and> json_dumps (h @ new) (VRef (length h)) =
        Some (Inr (JObj [(''attachments'',
          JArr [JObj [(''text'', JStr message),
                      (''color'', JStr (case level of
                                          NORMAL \<Rightarrow> ''#00C853''
                                        | INFORMATION \<Rightarrow> ''#FFD600''
                                        | CRITICAL \<Rightarrow> ''#d50000''))]])]))"
proof -
  have R: "recipients_at h None []" by (simp add: recipients_at_def)
  have c: "level_value level =
      (case level of NORMAL \<Rightarrow> ''#00C853'' | INFORMATION \<Rightarrow> ''#FFD600'' | CRITICAL \<Rightarrow> ''#d50000'')"
    by (cases level) simp_all
  show ?thesis
    using generate_message_slack_payload [OF assms R, of message level None]
    by (simp add: payload_json_def c)
qed

theorem generate_message_slack_single_block_witness:
  "Slackython_inv (snd example_notifier) (fst example_notifier)
   \<and> (\<exists>new.
      generate_message_slack (fst example_notifier) ''deployed'' INFORMATION None None
          (snd example_notifier) =
        Some (Inr (VRef 5), snd example_notifier @ new)
    \<and> json_dumps (snd example_notifier @ new) (VRef 5) =
        Some (Inr (JObj [(''attachments'',
          JArr [JObj [(''text'', JStr ''deployed''), (''color'', JStr ''#FFD600'')]])])))"
proof -
  have inv: "Slackython_inv (snd example_notifier) (fst example_notifier)"
    by (simp add: example_notifier_def example_caller_heap_def Slackython_init_def
        Slackython_inv_def)
  have len: "length (snd example_notifier) = 5"
    by (simp add: example_notifier_def example_caller_heap_def Slackython_init_def)
  show ?thesis
    using inv generate_message_slack_single_block [OF inv, of "''deployed''" INFORMATION]
    by (simp add: len)
qed

text \<open>
  Claim C3. For a recipient list \<open>R\<close> of \<open>n\<close> identifiers the payload has \<open>n + 1\<close>
  blocks: the first is the message block; block \<open>i + 2\<close> has the text \<^verbatim>\<open><@id>\<close> for
  the identifier at position \<open>i\<close> of \<open>R\<close>; every block has the colour of the severity.
\<close>

theorem generate_message_slack_mentions:
  assumes "Slackython_inv h self" and "m < length h" and "h ! m = OList (map VStr R)"
  shows "\<exists>new blocks.
      generate_message_slack self message level title (Some m) h =
        Some (Inr (VRef (length h)), h @ new)
    \<and> json_dumps (h @ new) (VRef (length h)) =
        Some (Inr (JObj ((''attachments'', JArr blocks)
                         # (case title of None \<Rightarrow> [] | Some t \<Rightarrow> [(''text'', JStr t)]))))
    \<and> length blocks = length R + 1
    \<and> blocks ! 0 = JObj [(''text'', JStr message), (''color'', JStr (level_value level))]
    \<and> (\<forall>i<length R.
          blocks ! (i + 1) = JObj [(''text'', JStr (''<@'' @ R ! i @ ''>'')),
                                   (''color'', JStr (level_value level))])
    \<and> blocks = JObj [(''text'', JStr message), (''color'', JStr (level_value level))]
               # map (\<lambda>s. JObj [(''text'', JStr (''<@'' @ s @ ''>'')),
                                (''color'', JStr (level_value level))]) R"
proof -
  have R: "recipients_at h (Some m) R"
    using assms(2,3) by (simp add: recipients_at_def)
  show ?thesis
    using generate_message_slack_payload [OF assms(1) R, of message level title]
    by (auto simp: payload_json_def)
qed

theorem generate_message_slack_mentions_witness:
  "Slackython_inv (snd example_notifier) (fst example_notifier)
   \<and> 0 < length (snd example_notifier)
   \<and> snd example_notifier ! 0 = OList (map VStr [''U1'', ''U2''])
   \<and> (\<exists>new.
      generate_message_slack (fst example_notifier) ''build red'' NORMAL (Some ''CI'') (Some 0)
          (snd example_notifier) =
        Some (Inr (VRef 5), snd example_notifier @ new)
    \<and> json_dumps (snd example_notifier @ new) (VRef 5) =
        Some (Inr (JObj [(''attachments'',
                JArr [JObj [(''text'', JStr ''build red''), (''color'', JStr ''#00C853'')],
                      JObj [(''text'', JStr ''<@U1>''), (''color'', JStr ''#00C853'')],
                      JObj [(''text'', JStr ''<@U2>''), (''color'', JStr ''#00C853'')]]),
             (''text'', JStr ''CI'')])))"
proof -
  have m: "0 < length (snd example_notifier)"
    "snd example_notifier ! 0 = OList (map VStr [''U1'', ''U2''])"
    by (simp_all add: example_notifier_eq)
  have len: "length (snd example_notifier) = 5"
    by (simp add: example_notifier_eq)
  show ?thesis
    using example_notifier_inv m
      generate_message_slack_mentions [OF example_notifier_inv m,
        of "''build red''" NORMAL "Some ''CI''"]
    by (auto simp: len)
qed

text \<open>
  Claim C4. For a payload that the encoder accepts and every retry budget, the transport
  comes to an end having sent some number \<open>k\<close> of POST requests, one after the other,
  all to the webhook URL with the encoded payload as body, and \<open>k\<close> is at most the
  budget (three when the budget is left out; none when it is not positive). If attempt
  \<open>i\<close> within the budget is answered with status 200 and every attempt before it was
  retried, exactly \<open>i + 1\<close> requests are sent and the call returns: the rest of the
  budget is not used. If attempt \<open>i\<close> is within the budget and every attempt before it
  was retried (a status other than 200 is retried), attempt \<open>i\<close> is made.
\<close>

theorem send_to_webhook_retries:
  assumes "json_dumps h data = Some (Inr j)"
  shows "\<exists>r w' k.
      send_to_webhook self data retries net h w = Some (r, w')
    \<and> posts w' = posts w @ replicate k
         \<lparr>url = webhook_url self, body = j,
          headers = [(''Content-Type'', ''application/json'')]\<rparr>
    \<and> k \<le> nat (case retries of None \<Rightarrow> 3 | Some n \<Rightarrow> n)
    \<and> (\<forall>i < nat (case retries of None \<Rightarrow> 3 | Some n \<Rightarrow> n).
          (\<forall>m<i. retried (net m)) \<and> net i = Response 200 \<longrightarrow> k = Suc i \<and> r = Inr ())
    \<and> (\<forall>i < nat (case retries of None \<Rightarrow> 3 | Some n \<Rightarrow> n).
          (\<forall>m<i. retried (net m)) \<longrightarrow> Suc i \<le> k)"
proof -
  let ?n = "nat (case retries of None \<Rightarrow> 3 | Some n \<Rightarrow> n)"
  obtain r w' where
    run: "send_to_webhook self data retries net h w = Some (r, w')"
    and p: "posts w' = posts w @ replicate (attempts_made net 0 ?n) (post_request self j)"
    using send_to_webhook_run [OF assms, of self retries net w] by blast
  have le: "attempts_made net 0 ?n \<le> ?n" by (rule attempts_made_le)
  have stop: "attempts_made net 0 ?n = Suc i \<and> r = Inr ()"
    if i: "i < ?n" and before: "\<forall>m<i. retried (net m)" and ok: "net i = Response 200" for i
  proof
    show "attempts_made net 0 ?n = Suc i"
      using i before ok by (intro attempts_made_stop) simp_all
    have "\<exists>w''. attempts self data net h 0 ?n w = Some (Inr (), w'')"
    proof (rule attempts_normal [OF assms])
      fix i'
      assume "i' < ?n" and b': "\<forall>m<i'. retried (net (0 + m))"
      have "\<not> i < i'" using b' ok by auto
      then have "i' < i \<or> i' = i" by auto
      then show "retried (net (0 + i')) \<or> net (0 + i') = Response 200"
        using before ok by auto
    qed
    then show "r = Inr ()" using run by (auto simp: send_to_webhook_def)
  qed
  have more: "Suc i \<le> attempts_made net 0 ?n"
    if "i < ?n" and "\<forall>m<i. retried (net m)" for i
    using that by (intro attempts_made_ge) simp_all
  show ?thesis
    using run p le stop more unfolding post_request_def by blast
qed

theorem send_to_webhook_retries_witness:
  "json_dumps example_built (VRef 5) = Some (Inr example_json)
   \<and> (\<exists>w'. send_to_webhook (fst example_notifier) (VRef 5) None
             (\<lambda>i. if i = 0 then Response 500 else Response 200) example_built
             \<lparr>posts = [], logged = []\<rparr> = Some (Inr (), w')
          \<and> posts w' = replicate 2
               \<lparr>url = ''https://example.test/hook'', body = example_json,
                headers = [(''Content-Type'', ''application/json'')]\<rparr>)"
proof -
  let ?net = "\<lambda>i::nat. if i = 0 then Response 500 else Response 200"
  note enc = example_built_json
  obtain r w' k where
    run: "send_to_webhook (fst example_notifier) (VRef 5) None ?net example_built
            \<lparr>posts = [], logged = []\<rparr> = Some (r, w')"
    and p: "posts w' = posts \<lparr>posts = [], logged = []\<rparr> @ replicate k
         \<lparr>url = webhook_url (fst example_notifier), body = example_json,
          headers = [(''Content-Type'', ''application/json'')]\<rparr>"
    and stop: "\<forall>i < nat (case None of None \<Rightarrow> 3 | Some n \<Rightarrow> n).
          (\<forall>m<i. retried (?net m)) \<and> ?net i = Response 200 \<longrightarrow> k = Suc i \<and> r = Inr ()"
    using send_to_webhook_retries [OF enc, of "fst example_notifier" None ?net
        "\<lparr>posts = [], logged = []\<rparr>"]
    by blast
  have "k = Suc 1 \<and> r = Inr ()"
    using stop [rule_format, of 1] by simp
  then show ?thesis
    using enc run p by (simp add: example_notifier_eq numeral_2_eq_2)
qed

text \<open>
  Claim C5. For a payload that the encoder accepts: when every attempt within the budget
  ends in a timeout, in too many redirects, in another exception of the requests library
  or in a status other than 200, the transport uses all of its budget and returns
  normally: no exception escapes. What it returns is the value that a call returns whose
  first attempt is answered with status 200, so that the result tells nothing about the
  delivery.
\<close>

theorem send_to_webhook_exhausted:
  assumes "json_dumps h data = Some (Inr j)"
    and "\<forall>i < nat (case retries of None \<Rightarrow> 3 | Some n \<Rightarrow> n).
           net i = Raises Timeout \<or> net i = Raises TooManyRedirects
         \<or> net i = Raises RequestException \<or> (\<exists>c. net i = Response c \<and> c \<noteq> 200)"
  shows "\<exists>w' w''.
      send_to_webhook self data retries net h w = Some (Inr (), w')
    \<and> posts w' = posts w @ replicate (nat (case retries of None \<Rightarrow> 3 | Some n \<Rightarrow> n))
         \<lparr>url = webhook_url self, body = j,
          headers = [(''Content-Type'', ''application/json'')]\<rparr>
    \<and> send_to_webhook self data (Some 1) (\<lambda>k. Response 200) h w = Some (Inr (), w'')"
proof -
  let ?n = "nat (case retries of None \<Rightarrow> 3 | Some n \<Rightarrow> n)"
  have all: "retried (net i)" if "i < ?n" for i
    using assms(2) that by auto
  obtain r w' where
    run: "send_to_webhook self data retries net h w = Some (r, w')"
    and p: "posts w' = posts w @ replicate (attempts_made net 0 ?n) (post_request self j)"
    using send_to_webhook_run [OF assms(1), of self retries net w] by blast
  have n: "attempts_made net 0 ?n = ?n"
    using all by (intro attempts_made_all) simp
  have "\<exists>w1. attempts self data net h 0 ?n w = Some (Inr (), w1)"
    using all by (intro attempts_normal [OF assms(1)]) simp
  then have r: "r = Inr ()" using run by (auto simp: send_to_webhook_def)
  have "\<exists>w''. send_to_webhook self data (Some 1) (\<lambda>k. Response 200) h w = Some (Inr (), w'')"
    by (simp add: send_to_webhook_def assms(1) Let_def)
  then show ?thesis
    using run p n r unfolding post_request_def by auto
qed

theorem send_to_webhook_exhausted_witness:
  "json_dumps example_built (VRef 5) = Some (Inr example_json)
   \<and> (\<exists>w'. send_to_webhook (fst example_notifier) (VRef 5) None
             (\<lambda>i. if i = 0 then Raises Timeout
                  else if i = 1 then Response 503 else Raises RequestException)
             example_built \<lparr>posts = [], logged = []\<rparr> = Some (Inr (), w')
          \<and> posts w' = replicate 3
               \<lparr>url = ''https://example.test/hook'', body = example_json,
                headers = [(''Content-Type'', ''application/json'')]\<rparr>)"
proof -
  let ?net = "\<lambda>i::nat. if i = 0 then Raises Timeout
                  else if i = 1 then Response 503 else Raises RequestException"
  note enc = example_built_json
  have hyp: "\<forall>i < nat (case None of None \<Rightarrow> 3 | Some n \<Rightarrow> n).
           ?net i = Raises Timeout \<or> ?net i = Raises TooManyRedirects
         \<or> ?net i = Raises RequestException \<or> (\<exists>c. ?net i = Response c \<and> c \<noteq> 200)"
    by simp
  show ?thesis
    using enc send_to_webhook_exhausted [OF enc hyp, of "fst example_notifier"
        "\<lparr>posts = [], logged = []\<rparr>"]
    by (auto simp: example_notifier_eq)
qed

text \<open>
  Claim C6. The payload has the top-level item \<^verbatim>\<open>text\<close> if and only if a title was
  given, and then its value is the title.
\<close>

theorem generate_message_slack_title:
  assumes "Slackython_inv h self" and "recipients_at h tagged_members R"
  shows "\<exists>new fields.
      generate_message_slack self message level title tagged_members h =
        Some (Inr (VRef (length h)), h @ new)
    \<and> json_dumps (h @ new) (VRef (length h)) = Some (Inr (JObj fields))
    \<and> (''text'' \<in> fst ` set fields \<longleftrightarrow> title \<noteq> None)
    \<and> map_of fields ''text'' = map_option JStr title"
  using generate_message_slack_payload [OF assms, of message level title]
  by (cases title) (auto simp: payload_json_def)

theorem generate_message_slack_title_witness:
  "Slackython_inv (snd example_notifier) (fst example_notifier)
   \<and> recipients_at (snd example_notifier) None []
   \<and> (\<exists>new fields.
        generate_message_slack (fst example_notifier) ''up'' NORMAL (Some ''Status'') None
          (snd example_notifier) = Some (Inr (VRef 5), snd example_notifier @ new)
      \<and> json_dumps (snd example_notifier @ new) (VRef 5) = Some (Inr (JObj fields))
      \<and> map_of fields ''text'' = Some (JStr ''Status''))
   \<and> (\<exists>new fields.
        generate_message_slack (fst example_notifier) ''up'' NORMAL None None
          (snd example_notifier) = Some (Inr (VRef 5), snd example_notifier @ new)
      \<and> json_dumps (snd example_notifier @ new) (VRef 5) = Some (Inr (JObj fields))
      \<and> ''text'' \<notin> fst ` set fields)"
proof -
  have R: "recipients_at (snd example_notifier) None []"
    by (simp add: recipients_at_def)
  have len: "length (snd example_notifier) = 5"
    by (simp add: example_notifier_eq)
  show ?thesis
    using example_notifier_inv R
      generate_message_slack_title [OF example_notifier_inv R, of "''up''" NORMAL "Some ''Status''"]
      generate_message_slack_title [OF example_notifier_inv R, of "''up''" NORMAL None]
    by (simp add: len) blast
qed

text \<open>
  Claim C7. Every block of a payload has the colour of one severity, the severity of the
  call: the one passed to the builder, Normal for \<^verbatim>\<open>send_message\<close>, Information for
  \<^verbatim>\<open>send_information\<close> and Critical for \<^verbatim>\<open>send_error\<close>. For the three send operations
  the payload is the body of every POST of the call.
\<close>

theorem one_severity_per_call:
  assumes "Slackython_inv h self" and "recipients_at h tagged_members R"
    and "h ! slack_supervisors self = OList (map VStr supervisors)"
  shows
   "(\<exists>new blocks rest.
       generate_message_slack self message level title tagged_members h =
         Some (Inr (VRef (length h)), h @ new)
     \<and> json_dumps (h @ new) (VRef (length h)) =
         Some (Inr (JObj ((''attachments'', JArr blocks) # rest)))
     \<and> (\<forall>b\<in>set blocks. \<exists>t. b = JObj [(''text'', JStr t),
                                          (''color'', JStr (level_value level))]))
  \<and> (\<exists>r new w' k blocks rest.
       send_message self message title tagged_members net h w = Some (r, h @ new, w')
     \<and> 1 \<le> k
     \<and> posts w' = posts w @ replicate k
          \<lparr>url = webhook_url self, body = JObj ((''attachments'', JArr blocks) # rest),
           headers = [(''Content-Type'', ''application/json'')]\<rparr>
     \<and> (\<forall>b\<in>set blocks. \<exists>t. b = JObj [(''text'', JStr t), (''color'', JStr ''#00C853'')]))
  \<and> (\<exists>r new w' k blocks rest.
       send_information self message title tagged_members net h w = Some (r, h @ new, w')
     \<and> 1 \<le> k
     \<and> posts w' = posts w @ replicate k
          \<lparr>url = webhook_url self, body = JObj ((''attachments'', JArr blocks) # rest),
           headers = [(''Content-Type'', ''application/json'')]\<rparr>
     \<and> (\<forall>b\<in>set blocks. \<exists>t. b = JObj [(''text'', JStr t), (''color'', JStr ''#FFD600'')]))
  \<and> (\<exists>r new w' k blocks rest.
       send_error self message title tagged_members net h w = Some (r, h @ new, w')
     \<and> 1 \<le> k
     \<and> posts w' = posts w @ replicate k
          \<lparr>url = webhook_url self, body = JObj ((''attachments'', JArr blocks) # rest),
           headers = [(''Content-Type'', ''application/json'')]\<rparr>
     \<and> (\<forall>b\<in>set blocks. \<exists>t. b = JObj [(''text'', JStr t), (''color'', JStr ''#d50000'')]))"
proof (intro conjI)
  show "\<exists>new blocks rest.
       generate_message_slack self message level title tagged_members h =
         Some (Inr (VRef (length h)), h @ new)
     \<and> json_dumps (h @ new) (VRef (length h)) =
         Some (Inr (JObj ((''attachments'', JArr blocks) # rest)))
     \<and> (\<forall>b\<in>set blocks. \<exists>t. b = JObj [(''text'', JStr t),
                                          (''color'', JStr (level_value level))])"
    using generate_message_slack_payload [OF assms(1,2), of message level title]
      payload_json_blocks [of title message "level_value level" R]
    by (metis (no_types, lifting))
next
  show "\<exists>r new w' k blocks rest.
       send_message self message title tagged_members net h w = Some (r, h @ new, w')
     \<and> 1 \<le> k
     \<and> posts w' = posts w @ replicate k
          \<lparr>url = webhook_url self, body = JObj ((''attachments'', JArr blocks) # rest),
           headers = [(''Content-Type'', ''application/json'')]\<rparr>
     \<and> (\<forall>b\<in>set blocks. \<exists>t. b = JObj [(''text'', JStr t), (''color'', JStr ''#00C853'')])"
    using send_message_run [OF assms(1,2), of message title net w]
      payload_json_blocks [of title message "''#00C853''" R]
    unfolding post_request_def by (metis (no_types, lifting))
next
  show "\<exists>r new w' k blocks rest.
       send_information self message title tagged_members net h w = Some (r, h @ new, w')
     \<and> 1 \<le> k
     \<and> posts w' = posts w @ replicate k
          \<lparr>url = webhook_url self, body = JObj ((''attachments'', JArr blocks) # rest),
           headers = [(''Content-Type'', ''application/json'')]\<rparr>
     \<and> (\<forall>b\<in>set blocks. \<exists>t. b = JObj [(''text'', JStr t), (''color'', JStr ''#FFD600'')])"
    using send_information_run [OF assms(1,2), of message title net w]
      payload_json_blocks [of title message "''#FFD600''" R]
    unfolding post_request_def by (metis (no_types, lifting))
next
  show "\<exists>r new w' k blocks rest.
       send_error self message title tagged_members net h w = Some (r, h @ new, w')
     \<and> 1 \<le> k
     \<and> posts w' = posts w @ replicate k
          \<lparr>url = webhook_url self, body = JObj ((''attachments'', JArr blocks) # rest),
           headers = [(''Content-Type'', ''application/json'')]\<rparr>
     \<and> (\<forall>b\<in>set blocks. \<exists>t. b = JObj [(''text'', JStr t), (''color'', JStr ''#d50000'')])"
    using send_error_run [OF assms(1) send_error_recipients_at [OF assms], of message title net w]
      payload_json_blocks [of title message "''#d50000''"
        "case tagged_members of None \<Rightarrow> supervisors | Some m \<Rightarrow> R"]
    unfolding post_request_def by (metis (no_types, lifting))
qed

theorem one_severity_per_call_witness:
  "Slackython_inv (snd example_notifier) (fst example_notifier)
   \<and> recipients_at (snd example_notifier) (Some 0) [''U1'', ''U2'']
   \<and> snd example_notifier ! slack_supervisors (fst example_notifier)
       = OList (map VStr [''U1'', ''U2''])
   \<and> (\<exists>r new w' k blocks rest.
       send_message (fst example_notifier) ''up'' None (Some 0) (\<lambda>i. Response 200)
         (snd example_notifier) \<lparr>posts = [], logged = []\<rparr>
         = Some (r, snd example_notifier @ new, w')
     \<and> 1 \<le> k
     \<and> posts w' = replicate k
          \<lparr>url = ''https://example.test/hook'',
           body = JObj ((''attachments'', JArr blocks) # rest),
           headers = [(''Content-Type'', ''application/json'')]\<rparr>
     \<and> (\<forall>b\<in>set blocks. \<exists>t. b = JObj [(''text'', JStr t), (''color'', JStr ''#00C853'')]))
   \<and> (\<exists>r new w' k blocks rest.
       send_error (fst example_notifier) ''down'' None None (\<lambda>i. Response 200)
         (snd example_notifier) \<lparr>posts = [], logged = []\<rparr>
         = Some (r, snd example_notifier @ new, w')
     \<and> 1 \<le> k
     \<and> posts w' = replicate k
          \<lparr>url = ''https://example.test/hook'',
           body = JObj ((''attachments'', JArr blocks) # rest),
           headers = [(''Content-Type'', ''application/json'')]\<rparr>
     \<and> (\<forall>b\<in>set blocks. \<exists>t. b = JObj [(''text'', JStr t), (''color'', JStr ''#d50000'')]))"
proof -
  have R: "recipients_at (snd example_notifier) (Some 0) [''U1'', ''U2'']"
    by (simp add: recipients_at_def example_notifier_eq)
  have N: "recipients_at (snd example_notifier) None []"
    by (simp add: recipients_at_def)
  have s: "snd example_notifier ! slack_supervisors (fst example_notifier)
       = OList (map VStr [''U1'', ''U2''])"
    by (simp add: example_notifier_eq)
  have u: "webhook_url (fst example_notifier) = ''https://example.test/hook''"
    by (simp add: example_notifier_eq)
  show ?thesis
    using example_notifier_inv R s
      one_severity_per_call [OF example_notifier_inv R s,
        of "''up''" NORMAL None "\<lambda>i. Response 200" "\<lparr>posts = [], logged = []\<rparr>"]
      one_severity_per_call [OF example_notifier_inv N s,
        of "''down''" CRITICAL None "\<lambda>i. Response 200" "\<lparr>posts = [], logged = []\<rparr>"]
    by (simp add: u)
qed

text \<open>
  Claim C8. Whatever the store and the arguments: when the builder or one of the three
  send operations comes to an end, by returning or by an exception, every object that was
  in the store before the call is in it unchanged. On a notifier in the state the
  constructor leaves, with identifiers as recipients and as supervisors, each of the four
  does come to an end, the supervisor list and the two templates are what they were, also
  when the supervisor list is the list of recipients that the builder reads
  (\<^verbatim>\<open>send_error\<close> without recipients), and the notifier is again in that state. The
  attributes themselves, the webhook URL among them, are never assigned to: the
  operations take the record and return none.
\<close>

theorem notifier_state_unchanged:
  "(\<forall>r h'. generate_message_slack self message level title tagged_members h = Some (r, h')
       \<longrightarrow> store_kept h h')
 \<and> (\<forall>r h' w'. send_message self message title tagged_members net h w = Some (r, h', w')
       \<longrightarrow> store_kept h h')
 \<and> (\<forall>r h' w'. send_information self message title tagged_members net h w = Some (r, h', w')
       \<longrightarrow> store_kept h h')
 \<and> (\<forall>r h' w'. send_error self message title tagged_members net h w = Some (r, h', w')
       \<longrightarrow> store_kept h h')
 \<and> (Slackython_inv h self \<and> recipients_at h tagged_members R
      \<and> h ! slack_supervisors self = OList (map VStr supervisors) \<longrightarrow>
      (\<exists>data h'.
         generate_message_slack self message level title tagged_members h = Some (Inr data, h')
       \<and> unchanged_by self h h' \<and> Slackython_inv h' self)
    \<and> (\<exists>r h' w'.
         send_message self message title tagged_members net h w = Some (r, h', w')
       \<and> unchanged_by self h h' \<and> Slackython_inv h' self)
    \<and> (\<exists>r h' w'.
         send_information self message title tagged_members net h w = Some (r, h', w')
       \<and> unchanged_by self h h' \<and> Slackython_inv h' self)
    \<and> (\<exists>r h' w'.
         send_error self message title tagged_members net h w = Some (r, h', w')
       \<and> unchanged_by self h h' \<and> Slackython_inv h' self))"
proof (intro conjI allI impI)
  fix r h'
  assume "generate_message_slack self message level title tagged_members h = Some (r, h')"
  then show "store_kept h h'" by (rule generate_message_slack_store_kept)
next
  fix r h' w'
  assume "send_message self message title tagged_members net h w = Some (r, h', w')"
  then show "store_kept h h'"
    unfolding send_message_def by (rule deliver_store_kept)
next
  fix r h' w'
  assume "send_information self message title tagged_members net h w = Some (r, h', w')"
  then show "store_kept h h'"
    unfolding send_information_def by (rule deliver_store_kept)
next
  fix r h' w'
  assume "send_error self message title tagged_members net h w = Some (r, h', w')"
  then show "store_kept h h'"
    unfolding send_error_def Let_def by (rule deliver_store_kept)
next
  assume a: "Slackython_inv h self \<and> recipients_at h tagged_members R
      \<and> h ! slack_supervisors self = OList (map VStr supervisors)"
  then have inv: "Slackython_inv h self" and R: "recipients_at h tagged_members R"
    and s: "h ! slack_supervisors self = OList (map VStr supervisors)"
    by simp_all
  note keep = unchanged_by_append [OF inv] Slackython_inv_extend [OF inv]
  show "\<exists>data h'.
         generate_message_slack self message level title tagged_members h = Some (Inr data, h')
       \<and> unchanged_by self h h' \<and> Slackython_inv h' self"
    using generate_message_slack_payload [OF inv R, of message level title] keep by metis
  show "\<exists>r h' w'.
         send_message self message title tagged_members net h w = Some (r, h', w')
       \<and> unchanged_by self h h' \<and> Slackython_inv h' self"
    using send_message_run [OF inv R, of message title net w] keep by metis
  show "\<exists>r h' w'.
         send_information self message title tagged_members net h w = Some (r, h', w')
       \<and> unchanged_by self h h' \<and> Slackython_inv h' self"
    using send_information_run [OF inv R, of message title net w] keep by metis
  show "\<exists>r h' w'.
         send_error self message title tagged_members net h w = Some (r, h', w')
       \<and> unchanged_by self h h' \<and> Slackython_inv h' self"
    using send_error_run [OF inv send_error_recipients_at [OF inv R s], of message title net w]
      keep by metis
qed

theorem notifier_state_unchanged_witness:
  "Slackython_inv (snd example_notifier) (fst example_notifier)
   \<and> recipients_at (snd example_notifier) None []
   \<and> snd example_notifier ! slack_supervisors (fst example_notifier)
       = OList (map VStr [''U1'', ''U2''])
   \<and> (\<exists>r h' w'.
       send_error (fst example_notifier) ''down'' None None (\<lambda>i. Raises Timeout)
         (snd example_notifier) \<lparr>posts = [], logged = []\<rparr> = Some (r, h', w')
     \<and> store_kept (snd example_notifier) h'
     \<and> unchanged_by (fst example_notifier) (snd example_notifier) h'
     \<and> Slackython_inv h' (fst example_notifier)
     \<and> h' ! 0 = OList [VStr ''U1'', VStr ''U2''])"
proof -
  have N: "recipients_at (snd example_notifier) None []"
    by (simp add: recipients_at_def)
  have s: "snd example_notifier ! slack_supervisors (fst example_notifier)
       = OList (map VStr [''U1'', ''U2''])"
    by (simp add: example_notifier_eq)
  note inst = notifier_state_unchanged [of "fst example_notifier" "''down''" CRITICAL None None
      "snd example_notifier" "\<lambda>i. Raises Timeout" "\<lparr>posts = [], logged = []\<rparr>"
      "[]" "[''U1'', ''U2'']"]
  obtain r h' w' where
    run: "send_error (fst example_notifier) ''down'' None None (\<lambda>i. Raises Timeout)
         (snd example_notifier) \<lparr>posts = [], logged = []\<rparr> = Some (r, h', w')"
    and keep: "unchanged_by (fst example_notifier) (snd example_notifier) h'"
      "Slackython_inv h' (fst example_notifier)"
    using inst example_notifier_inv N s by blast
  have sk: "store_kept (snd example_notifier) h'"
    using inst run by blast
  have "h' ! 0 = OList [VStr ''U1'', VStr ''U2'']"
    using keep(1) by (simp add: unchanged_by_def example_notifier_eq)
  then show ?thesis
    using example_notifier_inv N s run keep sk by simp
qed

text \<open>
  Claim C9. With a recipient list that is empty the builder does what it does with the
  recipient list left out: the same store and the same payload, which has exactly one
  block.
\<close>

theorem generate_message_slack_empty_recipients:
  assumes "Slackython_inv h self" and "m < length h" and "h ! m = OList []"
  shows "generate_message_slack self message level title (Some m) h =
         generate_message_slack self message level title None h
    \<and> (\<exists>new.
          generate_message_slack self message level title None h =
            Some (Inr (VRef (length h)), h @ new)
        \<and> json_dumps (h @ new) (VRef (length h)) =
            Some (Inr (JObj ((''attachments'',
                    JArr [JObj [(''text'', JStr message), (''color'', JStr (level_value level))]])
                  # (case title of None \<Rightarrow> [] | Some t \<Rightarrow> [(''text'', JStr t)])))))"
proof -
  have a: "recipients_at h (Some m) []"
    using assms(2,3) by (simp add: recipients_at_def)
  have b: "recipients_at h None []"
    by (simp add: recipients_at_def)
  have "generate_message_slack self message level title (Some m) h =
         generate_message_slack self message level title None h"
    by (simp only: generate_message_slack_built [OF assms(1) a]
        generate_message_slack_built [OF assms(1) b])
  then show ?thesis
    using generate_message_slack_payload [OF assms(1) b, of message level title]
    by (simp add: payload_json_def)
qed

theorem generate_message_slack_empty_recipients_witness:
  "Slackython_inv (snd example_notifier) (fst example_notifier)
   \<and> 1 < length (snd example_notifier)
   \<and> snd example_notifier ! 1 = OList []
   \<and> generate_message_slack (fst example_notifier) ''up'' NORMAL None (Some 1)
        (snd example_notifier) =
      generate_message_slack (fst example_notifier) ''up'' NORMAL None None
        (snd example_notifier)
   \<and> (\<exists>new.
        generate_message_slack (fst example_notifier) ''up'' NORMAL None None
          (snd example_notifier) = Some (Inr (VRef 5), snd example_notifier @ new)
      \<and> json_dumps (snd example_notifier @ new) (VRef 5) =
          Some (Inr (JObj [(''attachments'',
                  JArr [JObj [(''text'', JStr ''up''), (''color'', JStr ''#00C853'')]])])))"
proof -
  have m: "1 < length (snd example_notifier)" "snd example_notifier ! 1 = OList []"
    by (simp_all add: example_notifier_eq)
  have len: "length (snd example_notifier) = 5"
    by (simp add: example_notifier_eq)
  show ?thesis
    using example_notifier_inv m
      generate_message_slack_empty_recipients [OF example_notifier_inv m, of "''up''" NORMAL None]
    by (simp add: len)
qed

text \<open>
  Claim C10. A notifier constructed without a supervisor list holds a new, empty list,
  and \<^verbatim>\<open>send_error\<close> without recipients then sends a payload with exactly one block.
\<close>

theorem Slackython_init_no_supervisors:
  assumes "Slackython_init webhook None h0 = (self, h)"
  shows "slack_supervisors self = length h0 \<and> h ! slack_supervisors self = OList []
    \<and> (\<exists>r new w' k.
          send_error self message title None net h w = Some (r, h @ new, w') \<and> 1 \<le> k
        \<and> posts w' = posts w @ replicate k
            \<lparr>url = webhook,
             body = JObj ((''attachments'',
                      JArr [JObj [(''text'', JStr message), (''color'', JStr ''#d50000'')]])
                    # (case title of None \<Rightarrow> [] | Some t \<Rightarrow> [(''text'', JStr t)])),
             headers = [(''Content-Type'', ''application/json'')]\<rparr>)"
proof -
  have inv: "Slackython_inv h self"
    using assms by (rule Slackython_init_inv) simp
  have s: "slack_supervisors self = length h0" "h ! slack_supervisors self = OList []"
    "webhook_url self = webhook"
    using assms by (auto simp: Slackython_init_def Let_def nth_append)
  have R: "recipients_at h
      (Some (case None of None \<Rightarrow> slack_supervisors self | Some m \<Rightarrow> m)) []"
    using Slackython_inv_template(4) [OF inv] s(2) by (simp add: recipients_at_def)
  show ?thesis
    using s send_error_run [OF inv R, of message title net w]
    unfolding post_request_def payload_json_def by auto
qed

theorem Slackython_init_no_supervisors_witness:
  "Slackython_init ''https://example.test/hook'' None [] =
     (\<lparr>webhook_url = ''https://example.test/hook'', slack_supervisors = 0,
        base_template = 2, attachment_template = 3\<rparr>,
      [OList [], OList [], ODict [(''attachments'', VRef 1)],
       ODict [(''text'', VStr ''''), (''color'', VStr '''')]])
   \<and> (\<exists>r new w' k.
          send_error \<lparr>webhook_url = ''https://example.test/hook'', slack_supervisors = 0,
                       base_template = 2, attachment_template = 3\<rparr>
            ''disk full'' None None (\<lambda>i. Response 200)
            [OList [], OList [], ODict [(''attachments'', VRef 1)],
             ODict [(''text'', VStr ''''), (''color'', VStr '''')]]
            \<lparr>posts = [], logged = []\<rparr>
          = Some (r, [OList [], OList [], ODict [(''attachments'', VRef 1)],
                      ODict [(''text'', VStr ''''), (''color'', VStr '''')]] @ new, w')
        \<and> 1 \<le> k
        \<and> posts w' = replicate k
            \<lparr>url = ''https://example.test/hook'',
             body = JObj [(''attachments'',
                      JArr [JObj [(''text'', JStr ''disk full''), (''color'', JStr ''#d50000'')]])],
             headers = [(''Content-Type'', ''application/json'')]\<rparr>)"
proof -
  have i: "Slackython_init ''https://example.test/hook'' None [] =
     (\<lparr>webhook_url = ''https://example.test/hook'', slack_supervisors = 0,
        base_template = 2, attachment_template = 3\<rparr>,
      [OList [], OList [], ODict [(''attachments'', VRef 1)],
       ODict [(''text'', VStr ''''), (''color'', VStr '''')]])"
    by (simp add: Slackython_init_def)
  show ?thesis
    using i Slackython_init_no_supervisors [OF i, of "''disk full''" None "\<lambda>i. Response 200"
        "\<lparr>posts = [], logged = []\<rparr>"]
    by simp
qed

end
